theory Spec2Isabelle
  imports Complex_Main
begin

section \<open>The hit-and-run animation of an IRIS region\<close>

text \<open>
  The development embeds the function \<open>AnimateIris\<close> of the notebook
  \<^verbatim>\<open>trajectories/iris_in_configuration_space.ipynb\<close>. The function is driven by an
  external library (pydrake, numpy, meshcat); what the library computes is taken as a
  parameter (the record \<open>env\<close>), and every call of the source that reaches the outside
  world is written to a trace of events, in program order.

  Floating-point numbers are idealised as reals, vectors are lists of reals. The
  parameter \<open>speed\<close> of the source is not used by it, and neither is \<open>active_face\<close>.
\<close>

subsection \<open>Vectors and numpy arithmetic\<close>

type_synonym vec = "real list"

text \<open>
  The exceptions: the assertion of line 97, the refusal of numpy to add two shapes, and
  \<open>PydrakeError\<close> for an exception that a call into pydrake raises.
\<close>

datatype error = AssertionError | ValueError | PydrakeError

text \<open>\<^verbatim>\<open>t * v\<close> for a scalar \<open>t\<close> and a one-dimensional array \<open>v\<close>.\<close>

definition np_scale :: "real \<Rightarrow> vec \<Rightarrow> vec" where
  "np_scale t v = map (\<lambda>x. t * x) v"

text \<open>
  \<^verbatim>\<open>u + v\<close> for one-dimensional arrays: elementwise when the shapes agree, an array of
  one element is broadcast, and any other pair of shapes raises \<open>ValueError\<close>.
\<close>

definition np_add :: "vec \<Rightarrow> vec \<Rightarrow> error + vec" where
  "np_add u v =
     (if length u = length v then Inr (map2 (+) u v)
      else if length u = 1 then Inr (map (\<lambda>y. hd u + y) v)
      else if length v = 1 then Inr (map (\<lambda>x. x + hd v) u)
      else Inl ValueError)"

text \<open>
  \<^verbatim>\<open>np.arange(start, stop, step)\<close> for a positive step, as in the source:
  \<open>\<lceil>(stop - start) / step\<rceil>\<close> values \<open>start + i * step\<close>.
\<close>

definition np_arange :: "real \<Rightarrow> real \<Rightarrow> real \<Rightarrow> real list" where
  "np_arange start stop step =
     map (\<lambda>i. start + real i * step) [0..<nat \<lceil>(stop - start) / step\<rceil>]"

definition np_append :: "real list \<Rightarrow> real \<Rightarrow> real list" where
  "np_append xs x = xs @ [x]"

definition dot :: "vec \<Rightarrow> vec \<Rightarrow> real" where
  "dot u v = sum_list (map2 (*) u v)"

subsection \<open>The region and the mathematical program\<close>

text \<open>
  The region is an \<open>HPolyhedron\<close> \<open>{q. A q \<le> b}\<close>; \<open>region.A()\<close> is a list of rows.
\<close>

record region =
  region_A :: "vec list"
  region_b :: "vec"

text \<open>A point satisfies every inequality of the region within the tolerance \<open>tol\<close>.\<close>

definition satisfies :: "real \<Rightarrow> region \<Rightarrow> vec \<Rightarrow> bool" where
  "satisfies tol r v =
     list_all (\<lambda>(row, bi). dot row v \<le> bi + tol) (zip (region_A r) (region_b r))"

text \<open>The lower bound of a linear constraint: \<^verbatim>\<open>-np.inf\<close> or a number.\<close>

datatype lower = NegInf | Lower real

fun lower_le :: "lower \<Rightarrow> real \<Rightarrow> bool" where
  "lower_le NegInf x = True"
| "lower_le (Lower l) x = (l \<le> x)"

text \<open>
  The \<open>MathematicalProgram\<close> of the source: \<open>nq\<close> continuous variables, one linear
  constraint \<open>lb \<le> A q \<le> ub\<close> and one linear cost with coefficients \<open>cost\<close>.
\<close>

record MathematicalProgram =
  num_vars :: nat
  constraint_A :: "vec list"
  constraint_lb :: "lower list"
  constraint_ub :: "vec"
  cost :: "vec"

definition UpdateCoefficients :: "MathematicalProgram \<Rightarrow> vec \<Rightarrow> MathematicalProgram" where
  "UpdateCoefficients p c = p\<lparr>cost := c\<rparr>"

record MathematicalProgramResult =
  is_success :: bool
  GetSolution :: vec

text \<open>
  What \<open>Solve\<close> is documented to deliver: pydrake minimises the sum of the costs of the
  program subject to its constraints, and a successful solve returns a point that
  satisfies the constraints within the tolerance of the solver. \<open>lp_feasible_within\<close> can
  be evaluated; \<open>lp_minimum\<close> is the contract of an exact solve and quantifies over all
  points.
\<close>

definition lp_feasible_within :: "real \<Rightarrow> MathematicalProgram \<Rightarrow> vec \<Rightarrow> bool" where
  "lp_feasible_within tol p v =
     (length v = num_vars p \<and>
      list_all (\<lambda>(row, lo, up). lower_le lo (dot row v + tol) \<and> dot row v \<le> up + tol)
        (zip (constraint_A p) (zip (constraint_lb p) (constraint_ub p))))"

definition lp_feasible :: "MathematicalProgram \<Rightarrow> vec \<Rightarrow> bool" where
  "lp_feasible p v = lp_feasible_within 0 p v"

definition lp_minimum :: "MathematicalProgram \<Rightarrow> vec \<Rightarrow> bool" where
  "lp_minimum p v =
     (lp_feasible p v \<and> (\<forall>w. lp_feasible p w \<longrightarrow> dot (cost p) v \<le> dot (cost p) w))"

subsection \<open>The outside world\<close>

text \<open>
  \<^item> \<open>ChebyshevCenter\<close>: what \<^verbatim>\<open>region.ChebyshevCenter()\<close> returns or raises;
  \<^item> \<open>num_positions\<close>: \<^verbatim>\<open>plant.num_positions()\<close>;
  \<^item> \<open>Solve\<close>: the solver;
  \<^item> \<open>rng\<close>: the stream of standard-normal values of the generator that
    \<^verbatim>\<open>np.random.default_rng()\<close> creates (the source gives it no seed);
  \<^item> \<open>GetButtonClicks\<close>: the number of clicks of the button "Stop Animation" that the
    \<open>k\<close>-th call of \<^verbatim>\<open>meshcat.GetButtonClicks\<close> reports;
  \<^item> \<open>running_as_notebook\<close>: the flag imported from \<^verbatim>\<open>manipulation\<close>.
\<close>

record env =
  ChebyshevCenter :: "region \<Rightarrow> error + vec"
  num_positions :: nat
  Solve :: "MathematicalProgram \<Rightarrow> MathematicalProgramResult"
  rng :: "nat \<Rightarrow> real"
  GetButtonClicks :: "nat \<Rightarrow> nat"
  running_as_notebook :: bool

datatype event =
    Published vec
  | ButtonAdded
  | ButtonDeleted
  | Polled nat
  | Sampled vec
  | Solved MathematicalProgram
  | Slept

text \<open>
  The objects and local variables of \<open>AnimateIris\<close>: the region it was given, the
  positions in the plant context, \<open>q\<close>, \<open>prog\<close>, how many values the generator has
  produced, how often the button was polled, and the events so far.
\<close>

record state =
  st_region :: region
  st_positions :: vec
  st_q :: vec
  st_prog :: MathematicalProgram
  st_rng_pos :: nat
  st_polls :: nat
  st_trace :: "event list"

definition emit :: "event \<Rightarrow> state \<Rightarrow> state" where
  "emit ev s = s\<lparr>st_trace := st_trace s @ [ev]\<rparr>"

text \<open>The poses shown by the visualizer, in order.\<close>

fun published :: "event list \<Rightarrow> vec list" where
  "published [] = []"
| "published (Published v # evs) = v # published evs"
| "published (_ # evs) = published evs"

definition SetPositions :: "vec \<Rightarrow> state \<Rightarrow> state" where
  "SetPositions v s = s\<lparr>st_positions := v\<rparr>"

definition ForcedPublish :: "state \<Rightarrow> state" where
  "ForcedPublish s = emit (Published (st_positions s)) s"

text \<open>\<^verbatim>\<open>rng.standard_normal(n)\<close>: the next \<open>n\<close> values of the generator.\<close>

definition standard_normal :: "env \<Rightarrow> nat \<Rightarrow> state \<Rightarrow> vec \<times> state" where
  "standard_normal e n s =
     (let d = map (rng e) [st_rng_pos s..<st_rng_pos s + n]
      in (d, emit (Sampled d) (s\<lparr>st_rng_pos := st_rng_pos s + n\<rparr>)))"

definition poll :: "env \<Rightarrow> state \<Rightarrow> nat \<times> state" where
  "poll e s =
     (let c = GetButtonClicks e (st_polls s)
      in (c, emit (Polled c) (s\<lparr>st_polls := Suc (st_polls s)\<rparr>)))"

definition sleep :: "env \<Rightarrow> state \<Rightarrow> state" where
  "sleep e s = (if running_as_notebook e then emit Slept s else s)"

subsection \<open>AnimateIris\<close>

text \<open>
  Lines 73 to 90: \<open>q\<close> is the Chebyshev center, which is published; the button is
  added; the program gets \<open>nq\<close> variables, the constraint
  \<^verbatim>\<open>AddLinearConstraint(region.A(), 0 * region.b() - np.inf, region.b(), qvar)\<close> and the
  cost \<^verbatim>\<open>AddLinearCost(np.ones((nq, 1)), qvar)\<close>.

  Two of these calls refuse their argument. \<^verbatim>\<open>plant.SetPositions\<close> (line 77) raises when
  the center does not have \<^verbatim>\<open>plant.num_positions()\<close> entries. \<^verbatim>\<open>prog.AddLinearConstraint\<close>
  (line 88) raises when a row of the matrix does not have one entry for each of the \<open>nq\<close>
  variables, or when the number of rows differs from the size of the bounds, which is the
  size of \<^verbatim>\<open>region.b()\<close>; a list of rows does not record the number of columns of a matrix
  without rows. By line 88 the center is published and the button added, and an exception
  leaves the button in place.
\<close>

definition constraint_fits :: "nat \<Rightarrow> region \<Rightarrow> bool" where
  "constraint_fits nq r =
     (list_all (\<lambda>row. length row = nq) (region_A r) \<and>
      length (region_A r) = length (region_b r))"

definition build_prog :: "nat \<Rightarrow> region \<Rightarrow> MathematicalProgram" where
  "build_prog nq r =
     \<lparr>num_vars = nq,
      constraint_A = region_A r,
      constraint_lb = map (\<lambda>_. NegInf) (region_b r),
      constraint_ub = region_b r,
      cost = replicate nq 1\<rparr>"

text \<open>
  The result is the state in which the while loop is entered, or the exception with the
  events that came before it.
\<close>

definition AnimateIris_init :: "env \<Rightarrow> region \<Rightarrow> (error \<times> event list) + state" where
  "AnimateIris_init e r =
     (case ChebyshevCenter e r of
        Inl err \<Rightarrow> Inl (err, [])
      | Inr c \<Rightarrow>
          if length c \<noteq> num_positions e then Inl (PydrakeError, [])
          else
            let s = emit ButtonAdded (ForcedPublish
                  \<lparr>st_region = r, st_positions = c, st_q = c,
                   st_prog = build_prog (num_positions e) r,
                   st_rng_pos = 0, st_polls = 0, st_trace = []\<rparr>)
            in if constraint_fits (num_positions e) r then Inr s
               else Inl (PydrakeError, st_trace s))"

text \<open>
  Lines 104 to 109, the loop over \<open>t\<close>:
  \<^verbatim>\<open>qs = t * q_next + (1 - t) * q\<close>, then the pose is set and published. Here the plant
  is taken to accept the pose: after the initialisation \<open>q\<close> has \<open>nq\<close> entries, and
  \<^verbatim>\<open>result.GetSolution(qvar)\<close> has one value for each of the \<open>nq\<close> variables.
\<close>

fun animate :: "env \<Rightarrow> vec \<Rightarrow> real list \<Rightarrow> state \<Rightarrow> error option \<times> state" where
  "animate e q_next [] s = (None, s)"
| "animate e q_next (t # ts) s =
     (case np_add (np_scale t q_next) (np_scale (1 - t) (st_q s)) of
        Inl err \<Rightarrow> (Some err, s)
      | Inr qs \<Rightarrow> animate e q_next ts (sleep e (ForcedPublish (SetPositions qs s))))"

text \<open>Lines 93 to 111, the body of the while loop.\<close>

definition AnimateIris_step :: "env \<Rightarrow> state \<Rightarrow> error option \<times> state" where
  "AnimateIris_step e s =
     (let (direction, s1) = standard_normal e (num_positions e) s;
          s2 = s1\<lparr>st_prog := UpdateCoefficients (st_prog s1) direction\<rparr>;
          result = Solve e (st_prog s2);
          s3 = emit (Solved (st_prog s2)) s2
      in if \<not> is_success result then (Some AssertionError, s3)
         else
           let q_next = GetSolution result;
               (err, s4) = animate e q_next (np_append (np_arange 0 1 0.05) 1) s3
           in case err of
                Some x \<Rightarrow> (Some x, s4)
              | None \<Rightarrow> (None, s4\<lparr>st_q := q_next\<rparr>))"

datatype outcome = Returned | Raised error

text \<open>
  Lines 92 to 114, the while loop. It need not end: \<open>None\<close> is a run that polls the
  button for ever.
\<close>

partial_function (option) AnimateIris_loop :: "env \<Rightarrow> state \<Rightarrow> (outcome \<times> state) option" where
  "AnimateIris_loop e s =
     (if fst (poll e s) < 1 then
        (case fst (AnimateIris_step e (snd (poll e s))) of
           Some x \<Rightarrow> Some (Raised x, snd (AnimateIris_step e (snd (poll e s))))
         | None \<Rightarrow>
             if \<not> running_as_notebook e
             then Some (Returned, snd (AnimateIris_step e (snd (poll e s))))
             else AnimateIris_loop e (snd (AnimateIris_step e (snd (poll e s)))))
      else Some (Returned, snd (poll e s)))"

declare AnimateIris_loop.simps [code]

text \<open>
  The whole function: what it does to the outside world, and whether it returned. The
  button is deleted after the loop, so not when an exception leaves the function.
\<close>

definition AnimateIris :: "env \<Rightarrow> region \<Rightarrow> (outcome \<times> event list) option" where
  "AnimateIris e r =
     (case AnimateIris_init e r of
        Inl (err, evs) \<Rightarrow> Some (Raised err, evs)
      | Inr s0 \<Rightarrow>
          (case AnimateIris_loop e s0 of
             None \<Rightarrow> None
           | Some (Returned, s) \<Rightarrow> Some (Returned, st_trace (emit ButtonDeleted s))
           | Some (Raised x, s) \<Rightarrow> Some (Raised x, st_trace s)))"

subsection \<open>Notions used to state the properties\<close>

text \<open>
  The waypoint of the specification for the parameter \<open>t\<close>:
  \<open>t \<cdot> target + (1 - t) \<cdot> q_current\<close>, coordinate by coordinate.
\<close>

definition waypoint :: "real \<Rightarrow> vec \<Rightarrow> vec \<Rightarrow> vec" where
  "waypoint t target q_current = map2 (\<lambda>x y. t * x + (1 - t) * y) target q_current"

text \<open>The 21 parameters \<open>0, 0.05, \<dots>, 0.95, 1\<close> of the specification.\<close>

definition interpolation :: "real list" where
  "interpolation = [0, 0.05, 0.1, 0.15, 0.2, 0.25, 0.3, 0.35, 0.4, 0.45, 0.5,
                    0.55, 0.6, 0.65, 0.7, 0.75, 0.8, 0.85, 0.9, 0.95, 1]"

text \<open>What line 105 computes when it does not raise.\<close>

definition blend :: "real \<Rightarrow> vec \<Rightarrow> vec \<Rightarrow> vec" where
  "blend t q_next q =
     (case np_add (np_scale t q_next) (np_scale (1 - t) q) of Inl _ \<Rightarrow> [] | Inr qs \<Rightarrow> qs)"

text \<open>The shapes that numpy can add.\<close>

definition compatible :: "vec \<Rightarrow> vec \<Rightarrow> bool" where
  "compatible u v = (length u = length v \<or> length u = 1 \<or> length v = 1)"

text \<open>The events of one pass of the loop over \<open>t\<close>.\<close>

definition frame :: "env \<Rightarrow> vec \<Rightarrow> event list" where
  "frame e v = (if running_as_notebook e then [Published v, Slept] else [Published v])"

text \<open>
  The local variables of a pass of the while loop that starts in the state \<open>s\<close>:
  \<open>direction\<close>, the program handed to \<open>Solve\<close>, and \<open>q_next\<close>.
\<close>

definition direction_of :: "env \<Rightarrow> state \<Rightarrow> vec" where
  "direction_of e s = map (rng e) [st_rng_pos s..<st_rng_pos s + num_positions e]"

definition prog_of :: "env \<Rightarrow> state \<Rightarrow> MathematicalProgram" where
  "prog_of e s = UpdateCoefficients (st_prog s) (direction_of e s)"

definition target_of :: "env \<Rightarrow> state \<Rightarrow> vec" where
  "target_of e s = GetSolution (Solve e (prog_of e s))"

text \<open>The state after lines 93 to 96.\<close>

definition solving :: "env \<Rightarrow> state \<Rightarrow> state" where
  "solving e s =
     s\<lparr>st_prog := prog_of e s,
       st_rng_pos := st_rng_pos s + num_positions e,
       st_trace := st_trace s @ [Sampled (direction_of e s), Solved (prog_of e s)]\<rparr>"

subsection \<open>The example of the specification\<close>

text \<open>
  The unit square \<open>{q. \<bar>q\<^sub>1\<bar> \<le> 1 \<and> \<bar>q\<^sub>2\<bar> \<le> 1}\<close> with the interior point \<open>(0, 0)\<close>, a
  generator whose first direction is \<open>(1, 0)\<close>, and a solver that answers \<open>(-1, 0)\<close>.
  \<open>square_start\<close> is the state when the while loop is entered.
\<close>

definition unit_square :: region where
  "unit_square = \<lparr>region_A = [[1, 0], [-1, 0], [0, 1], [0, -1]], region_b = [1, 1, 1, 1]\<rparr>"

definition square_env :: env where
  "square_env =
     \<lparr>ChebyshevCenter = (\<lambda>r. Inr [0, 0]),
      num_positions = 2,
      Solve = (\<lambda>p. \<lparr>is_success = True, GetSolution = [-1, 0]\<rparr>),
      rng = (\<lambda>k. if k = 0 then 1 else 0),
      GetButtonClicks = (\<lambda>k. 0),
      running_as_notebook = False\<rparr>"

definition square_start :: state where
  "square_start =
     \<lparr>st_region = unit_square, st_positions = [0, 0], st_q = [0, 0],
      st_prog = build_prog 2 unit_square,
      st_rng_pos = 0, st_polls = 0, st_trace = [Published [0, 0], ButtonAdded]\<rparr>"

text \<open>The state after the button was polled (line 92).\<close>

definition polled :: "env \<Rightarrow> state \<Rightarrow> state" where
  "polled e s =
     s\<lparr>st_polls := Suc (st_polls s),
       st_trace := st_trace s @ [Polled (GetButtonClicks e (st_polls s))]\<rparr>"

text \<open>The example with a solver that reports failure.\<close>

definition failing_env :: env where
  "failing_env = square_env\<lparr>Solve := \<lambda>p. \<lparr>is_success = False, GetSolution = [0, 0]\<rparr>\<rparr>"

subsection \<open>Further examples\<close>

text \<open>
  A region without any inequality, a region whose matrix has three columns, and the
  example with a plant of three positions.
\<close>

definition no_inequalities :: region where
  "no_inequalities = \<lparr>region_A = [], region_b = []\<rparr>"

definition wide_region :: region where
  "wide_region = \<lparr>region_A = [[1, 0, 0]], region_b = [1]\<rparr>"

definition three_env :: env where
  "three_env = square_env\<lparr>num_positions := 3\<rparr>"

text \<open>
  A notebook run in which the button is clicked after two passes, and one in which it is
  clicked after the first pass.
\<close>

definition notebook_env :: env where
  "notebook_env =
     square_env\<lparr>GetButtonClicks := \<lambda>k. if k < 2 then 0 else 1, running_as_notebook := True\<rparr>"

definition impatient_env :: env where
  "impatient_env =
     square_env\<lparr>GetButtonClicks := \<lambda>k. if k < 1 then 0 else 4, running_as_notebook := True\<rparr>"

text \<open>
  The states and traces at the end of these runs.
\<close>

definition square_end :: state where
  "square_end = snd (AnimateIris_step square_env (polled square_env square_start))"

definition notebook_end :: state where
  "notebook_end =
     polled notebook_env
       (snd (AnimateIris_step notebook_env
         (polled notebook_env
           (snd (AnimateIris_step notebook_env (polled notebook_env square_start))))))"

definition square_trace :: "event list" where
  "square_trace = st_trace (emit ButtonDeleted square_end)"

definition impatient_trace :: "event list" where
  "impatient_trace =
     st_trace (emit ButtonDeleted
       (polled impatient_env
         (snd (AnimateIris_step impatient_env (polled impatient_env square_start)))))"

subsection \<open>Traces\<close>

text \<open>
  The events of one pass of the while loop: the sample, the solve and, when line 97
  and line 105 do not raise, the frames of the 21 waypoints.
\<close>

definition step_events :: "env \<Rightarrow> state \<Rightarrow> event list" where
  "step_events e s =
     [Sampled (direction_of e s), Solved (prog_of e s)] @
     (if is_success (Solve e (prog_of e s)) \<and> compatible (target_of e s) (st_q s)
      then concat (map (\<lambda>t. frame e (blend t (target_of e s) (st_q s))) interpolation)
      else [])"

fun is_poll :: "event \<Rightarrow> bool" where
  "is_poll (Polled c) = True"
| "is_poll _ = False"

text \<open>
  The cancellation property of the specification, on the events that follow a poll of
  the button: \<open>n\<close> counts the waypoints published since that poll. The next poll comes
  after exactly 21 waypoints, and the trace ends after none or after 21.
\<close>

fun whole_steps :: "nat \<Rightarrow> event list \<Rightarrow> bool" where
  "whole_steps n [] = (n = 0 \<or> n = 21)"
| "whole_steps n (Polled c # evs) = (n = 21 \<and> whole_steps 0 evs)"
| "whole_steps n (Published v # evs) = whole_steps (Suc n) evs"
| "whole_steps n (_ # evs) = whole_steps n evs"

text \<open>
  The number of steps a trace has started (one sample each), the part of the outside
  world that the specification fixes for two runs (generator and solver, with the region's
  center and the dimension), and the part of the state that a walk depends on.
\<close>

fun steps_of :: "event list \<Rightarrow> nat" where
  "steps_of [] = 0"
| "steps_of (Sampled d # evs) = Suc (steps_of evs)"
| "steps_of (_ # evs) = steps_of evs"

definition same_sources :: "env \<Rightarrow> env \<Rightarrow> bool" where
  "same_sources e1 e2 =
     (ChebyshevCenter e1 = ChebyshevCenter e2 \<and> num_positions e1 = num_positions e2 \<and>
      Solve e1 = Solve e2 \<and> rng e1 = rng e2)"

definition walk :: "state \<Rightarrow> region \<times> vec \<times> MathematicalProgram \<times> nat \<times> vec list \<times> nat" where
  "walk s =
     (st_region s, st_q s, st_prog s, st_rng_pos s, published (st_trace s), steps_of (st_trace s))"

subsection \<open>Invariants\<close>

text \<open>
  The constraints of the program are the inequalities of the region (lines 88 and 89),
  whatever the cost is at the moment.
\<close>

definition constraints_of_region :: "env \<Rightarrow> state \<Rightarrow> bool" where
  "constraints_of_region e s =
     (num_vars (st_prog s) = num_positions e \<and>
      constraint_A (st_prog s) = region_A (st_region s) \<and>
      constraint_lb (st_prog s) = map (\<lambda>_. NegInf) (region_b (st_region s)) \<and>
      constraint_ub (st_prog s) = region_b (st_region s))"

text \<open>
  Feasibility as an invariant of the walk: \<open>q\<close> and every pose published so far satisfy
  every inequality of the region within the tolerance.
\<close>

definition feasible_walk :: "real \<Rightarrow> env \<Rightarrow> state \<Rightarrow> bool" where
  "feasible_walk tol e s =
     (constraints_of_region e s \<and> length (st_q s) = num_positions e \<and>
      satisfies tol (st_region s) (st_q s) \<and>
      list_all (satisfies tol (st_region s)) (published (st_trace s)))"

section \<open>Properties\<close>

subsection \<open>The interpolation and one pass of the loop\<close>

lemma published_append: "published (xs @ ys) = published xs @ published ys"
  by (induction xs rule: published.induct) simp_all

lemma published_frames: "published (concat (map (\<lambda>t. frame e (f t)) ts)) = map f ts"
  by (induction ts) (auto simp: frame_def)

lemma upt_20: "[0..<20] = [0, 1, 2, 3, 4, 5, 6, 7, 8, 9, 10, 11, 12, 13, 14, 15, 16, 17, 18, 19]"
  by (simp add: upt_conv_Cons)

lemma interpolation_eq: "np_append (np_arange 0 1 0.05) 1 = interpolation"
  by (simp add: np_append_def np_arange_def upt_20 interpolation_def)

lemma interp_same_length:
  "length u = length v \<Longrightarrow> np_add (np_scale t u) (np_scale (1 - t) v) = Inr (waypoint t u v)"
  by (auto simp: np_add_def np_scale_def waypoint_def zip_map_map)

lemma blend_same_length: "length u = length v \<Longrightarrow> blend t u v = waypoint t u v"
  by (simp add: blend_def interp_same_length)

lemma interp_incompatible:
  "\<not> compatible u v \<Longrightarrow> np_add (np_scale t u) (np_scale t' v) = Inl ValueError"
  by (auto simp: np_add_def np_scale_def compatible_def)

lemma interp_compatible:
  "compatible u v \<Longrightarrow> np_add (np_scale t u) (np_scale (1 - t) v) = Inr (blend t u v)"
  by (auto simp: blend_def np_add_def np_scale_def compatible_def)

lemma animate_incompatible:
  "\<not> compatible qn (st_q s) \<Longrightarrow> ts \<noteq> [] \<Longrightarrow> animate e qn ts s = (Some ValueError, s)"
  by (cases ts) (simp_all add: interp_incompatible)

lemma animate_compatible:
  "compatible qn (st_q s) \<Longrightarrow>
   animate e qn ts s =
     (None, s\<lparr>st_positions := (if ts = [] then st_positions s else blend (last ts) qn (st_q s)),
              st_trace := st_trace s @ concat (map (\<lambda>t. frame e (blend t qn (st_q s))) ts)\<rparr>)"
proof (induction ts arbitrary: s)
  case Nil
  then show ?case by simp
next
  case (Cons t ts)
  let ?s' = "sleep e (ForcedPublish (SetPositions (blend t qn (st_q s)) s))"
  have q: "st_q ?s' = st_q s"
    by (simp add: sleep_def ForcedPublish_def SetPositions_def emit_def)
  have "animate e qn (t # ts) s = animate e qn ts ?s'"
    using Cons.prems by (simp add: interp_compatible)
  also have "\<dots> = (None, ?s'\<lparr>st_positions :=
                 (if ts = [] then st_positions ?s' else blend (last ts) qn (st_q ?s')),
              st_trace := st_trace ?s' @ concat (map (\<lambda>t. frame e (blend t qn (st_q ?s'))) ts)\<rparr>)"
    using Cons.prems q by (intro Cons.IH) simp
  finally show ?case
    by (simp add: q sleep_def ForcedPublish_def SetPositions_def emit_def frame_def)
qed

lemma standard_normal_eq:
  "standard_normal e (num_positions e) s =
     (direction_of e s,
      emit (Sampled (direction_of e s)) (s\<lparr>st_rng_pos := st_rng_pos s + num_positions e\<rparr>))"
  by (simp add: standard_normal_def direction_of_def Let_def)

lemma solving_eq:
  "emit (Solved (prog_of e s))
     (emit (Sampled (direction_of e s)) (s\<lparr>st_rng_pos := st_rng_pos s + num_positions e\<rparr>)
        \<lparr>st_prog := prog_of e s\<rparr>) = solving e s"
  by (simp add: emit_def solving_def)

lemma step_unfold:
  "AnimateIris_step e s =
     (if \<not> is_success (Solve e (prog_of e s)) then (Some AssertionError, solving e s)
      else case animate e (target_of e s) interpolation (solving e s) of
             (Some x, s4) \<Rightarrow> (Some x, s4)
           | (None, s4) \<Rightarrow> (None, s4\<lparr>st_q := target_of e s\<rparr>))"
proof -
  have p: "UpdateCoefficients
      (st_prog (emit (Sampled (direction_of e s)) (s\<lparr>st_rng_pos := st_rng_pos s + num_positions e\<rparr>)))
      (direction_of e s) = prog_of e s"
    by (simp add: prog_of_def emit_def)
  show ?thesis
    unfolding AnimateIris_step_def interpolation_eq standard_normal_eq
    by (simp add: p solving_eq target_of_def Let_def split: prod.splits option.splits)
qed

lemma solving_q: "st_q (solving e s) = st_q s"
  by (simp add: solving_def)

lemma interpolation_nonempty: "interpolation \<noteq> []"
  by (simp add: interpolation_def)

lemma step_assertion:
  "\<not> is_success (Solve e (prog_of e s)) \<Longrightarrow>
   AnimateIris_step e s = (Some AssertionError, solving e s)"
  by (simp add: step_unfold)

lemma step_incompatible:
  "is_success (Solve e (prog_of e s)) \<Longrightarrow> \<not> compatible (target_of e s) (st_q s) \<Longrightarrow>
   AnimateIris_step e s = (Some ValueError, solving e s)"
  by (simp add: step_unfold animate_incompatible solving_q interpolation_nonempty)

lemma step_completed:
  "is_success (Solve e (prog_of e s)) \<Longrightarrow> compatible (target_of e s) (st_q s) \<Longrightarrow>
   AnimateIris_step e s =
     (None, s\<lparr>st_positions := blend 1 (target_of e s) (st_q s),
              st_q := target_of e s,
              st_prog := prog_of e s,
              st_rng_pos := st_rng_pos s + num_positions e,
              st_trace := st_trace s @ [Sampled (direction_of e s), Solved (prog_of e s)] @
                 concat (map (\<lambda>t. frame e (blend t (target_of e s) (st_q s))) interpolation)\<rparr>)"
  by (simp add: step_unfold animate_compatible solving_q interpolation_nonempty)
     (simp add: solving_def interpolation_def)

subsection \<open>The waypoints of a step\<close>

lemma square_start_init: "AnimateIris_init square_env unit_square = Inr square_start"
  by (simp add: AnimateIris_init_def square_env_def square_start_def ForcedPublish_def emit_def
      constraint_fits_def unit_square_def)

lemma waypoint_0: "length u = length v \<Longrightarrow> waypoint 0 u v = v"
  by (induction u v rule: list_induct2) (simp_all add: waypoint_def)

lemma waypoint_1: "length u = length v \<Longrightarrow> waypoint 1 u v = u"
  by (induction u v rule: list_induct2) (simp_all add: waypoint_def)

lemma step_published:
  assumes "is_success (Solve e (prog_of e s))" and "length (target_of e s) = length (st_q s)"
  shows "published (st_trace (snd (AnimateIris_step e s))) =
     published (st_trace s) @ map (\<lambda>t. waypoint t (target_of e s) (st_q s)) interpolation"
proof -
  have c: "compatible (target_of e s) (st_q s)"
    using assms(2) by (simp add: compatible_def)
  have "published (st_trace (snd (AnimateIris_step e s))) =
     published (st_trace s) @ map (\<lambda>t. blend t (target_of e s) (st_q s)) interpolation"
    by (simp add: step_completed [OF assms(1) c] published_append published_frames)
  then show ?thesis
    using assms(2) by (simp add: blend_same_length)
qed

lemma step_fst:
  "is_success (Solve e (prog_of e s)) \<Longrightarrow> length (target_of e s) = length (st_q s) \<Longrightarrow>
   fst (AnimateIris_step e s) = None"
  by (simp add: step_completed compatible_def)

text \<open>
  Claim C2. A pass of the loop whose solve succeeds, with \<open>q_next\<close> and \<open>q\<close> of the same
  dimension, publishes exactly the 21 waypoints \<open>t \<cdot> q_next + (1 - t) \<cdot> q\<close> for
  \<open>t = 0, 0.05, \<dots>, 0.95, 1\<close> in this order. The parameters are the values of
  \<^verbatim>\<open>np.append(np.arange(0, 1, .05), 1)\<close>, they increase strictly, \<open>1\<close> occurs once, the first
  waypoint is \<open>q\<close> and the last one is \<open>q_next\<close>.
\<close>

theorem waypoints_of_step:
  assumes "is_success (Solve e (prog_of e s))" and "length (target_of e s) = length (st_q s)"
  shows "fst (AnimateIris_step e s) = None \<and>
   published (st_trace (snd (AnimateIris_step e s))) =
     published (st_trace s) @ map (\<lambda>t. waypoint t (target_of e s) (st_q s)) interpolation \<and>
   np_append (np_arange 0 1 0.05) 1 = interpolation \<and>
   length interpolation = 21 \<and> sorted_wrt (<) interpolation \<and>
   hd interpolation = 0 \<and> last interpolation = 1 \<and> count_list interpolation 1 = 1 \<and>
   waypoint (hd interpolation) (target_of e s) (st_q s) = st_q s \<and>
   waypoint (last interpolation) (target_of e s) (st_q s) = target_of e s"
proof (intro conjI)
  show "fst (AnimateIris_step e s) = None"
    using assms by (rule step_fst)
  show "published (st_trace (snd (AnimateIris_step e s))) =
     published (st_trace s) @ map (\<lambda>t. waypoint t (target_of e s) (st_q s)) interpolation"
    using assms by (rule step_published)
  show "np_append (np_arange 0 1 0.05) 1 = interpolation"
    by (rule interpolation_eq)
  show "length interpolation = 21" and "sorted_wrt (<) interpolation"
    and "count_list interpolation 1 = 1"
    by (simp_all add: interpolation_def)
  show h: "hd interpolation = 0" and l: "last interpolation = 1"
    by (simp_all add: interpolation_def)
  show "waypoint (hd interpolation) (target_of e s) (st_q s) = st_q s"
    using assms(2) by (simp add: h waypoint_0)
  show "waypoint (last interpolation) (target_of e s) (st_q s) = target_of e s"
    using assms(2) by (simp add: l waypoint_1)
qed

lemma square_direction: "direction_of square_env square_start = [1, 0]"
  by (simp add: direction_of_def square_env_def square_start_def upt_conv_Cons)

lemma square_prog:
  "prog_of square_env square_start =
     \<lparr>num_vars = 2, constraint_A = [[1, 0], [-1, 0], [0, 1], [0, -1]],
      constraint_lb = [NegInf, NegInf, NegInf, NegInf],
      constraint_ub = [1, 1, 1, 1], cost = [1, 0]\<rparr>"
  by (simp add: prog_of_def square_direction UpdateCoefficients_def)
     (simp add: square_start_def build_prog_def unit_square_def)

lemma square_target: "target_of square_env square_start = [-1, 0]"
  by (simp add: target_of_def square_env_def)

theorem waypoints_of_step_witness:
  "is_success (Solve square_env (prog_of square_env square_start)) \<and>
   length (target_of square_env square_start) = length (st_q square_start) \<and>
   published (st_trace (snd (AnimateIris_step square_env square_start))) =
     [[0, 0],
      [0, 0], [-0.05, 0], [-0.1, 0], [-0.15, 0], [-0.2, 0], [-0.25, 0], [-0.3, 0],
      [-0.35, 0], [-0.4, 0], [-0.45, 0], [-0.5, 0], [-0.55, 0], [-0.6, 0], [-0.65, 0],
      [-0.7, 0], [-0.75, 0], [-0.8, 0], [-0.85, 0], [-0.9, 0], [-0.95, 0], [-1, 0]]"
proof -
  have s: "is_success (Solve square_env (prog_of square_env square_start))"
    by (simp add: square_env_def)
  have l: "length (target_of square_env square_start) = length (st_q square_start)"
    by (simp add: square_target) (simp add: square_start_def)
  have "published (st_trace (snd (AnimateIris_step square_env square_start))) =
     published (st_trace square_start) @
     map (\<lambda>t. waypoint t (target_of square_env square_start) (st_q square_start)) interpolation"
    using waypoints_of_step [OF s l] by (elim conjE)
  also have "\<dots> = [[0, 0],
      [0, 0], [-0.05, 0], [-0.1, 0], [-0.15, 0], [-0.2, 0], [-0.25, 0], [-0.3, 0],
      [-0.35, 0], [-0.4, 0], [-0.45, 0], [-0.5, 0], [-0.55, 0], [-0.6, 0], [-0.65, 0],
      [-0.7, 0], [-0.75, 0], [-0.8, 0], [-0.85, 0], [-0.9, 0], [-0.95, 0], [-1, 0]]"
    unfolding square_target by (simp add: square_start_def interpolation_def waypoint_def)
  finally show ?thesis
    using s l by simp
qed

subsection \<open>The while loop\<close>

lemma poll_eq: "poll e s = (GetButtonClicks e (st_polls s), polled e s)"
  by (simp add: poll_def polled_def emit_def Let_def)

lemma loop_stop:
  "1 \<le> GetButtonClicks e (st_polls s) \<Longrightarrow> AnimateIris_loop e s = Some (Returned, polled e s)"
  by (subst AnimateIris_loop.simps) (simp add: poll_eq)

lemma loop_raise:
  "GetButtonClicks e (st_polls s) < 1 \<Longrightarrow> fst (AnimateIris_step e (polled e s)) = Some x \<Longrightarrow>
   AnimateIris_loop e s = Some (Raised x, snd (AnimateIris_step e (polled e s)))"
  by (subst AnimateIris_loop.simps) (simp add: poll_eq)

lemma loop_break:
  "GetButtonClicks e (st_polls s) < 1 \<Longrightarrow> fst (AnimateIris_step e (polled e s)) = None \<Longrightarrow>
   \<not> running_as_notebook e \<Longrightarrow>
   AnimateIris_loop e s = Some (Returned, snd (AnimateIris_step e (polled e s)))"
  by (subst AnimateIris_loop.simps) (simp add: poll_eq)

lemma loop_continue:
  "GetButtonClicks e (st_polls s) < 1 \<Longrightarrow> fst (AnimateIris_step e (polled e s)) = None \<Longrightarrow>
   running_as_notebook e \<Longrightarrow>
   AnimateIris_loop e s = AnimateIris_loop e (snd (AnimateIris_step e (polled e s)))"
  by (subst AnimateIris_loop.simps) (simp add: poll_eq)

lemma polled_fields:
  "st_q (polled e s) = st_q s" "st_region (polled e s) = st_region s"
  "st_prog (polled e s) = st_prog s" "st_rng_pos (polled e s) = st_rng_pos s"
  "st_positions (polled e s) = st_positions s"
  by (simp_all add: polled_def)

lemma polled_step_vars:
  "direction_of e (polled e s) = direction_of e s"
  "prog_of e (polled e s) = prog_of e s"
  "target_of e (polled e s) = target_of e s"
  by (simp_all add: direction_of_def prog_of_def target_of_def polled_fields)

lemma init_eq:
  "ChebyshevCenter e r = Inr c \<Longrightarrow> length c = num_positions e \<Longrightarrow>
   constraint_fits (num_positions e) r \<Longrightarrow>
   AnimateIris_init e r =
     Inr \<lparr>st_region = r, st_positions = c, st_q = c,
          st_prog = build_prog (num_positions e) r,
          st_rng_pos = 0, st_polls = 0, st_trace = [Published c, ButtonAdded]\<rparr>"
  by (simp add: AnimateIris_init_def ForcedPublish_def emit_def)

lemma init_raise: "ChebyshevCenter e r = Inl x \<Longrightarrow> AnimateIris_init e r = Inl (x, [])"
  by (simp add: AnimateIris_init_def)

lemma init_refused_center:
  "ChebyshevCenter e r = Inr c \<Longrightarrow> length c \<noteq> num_positions e \<Longrightarrow>
   AnimateIris_init e r = Inl (PydrakeError, [])"
  by (simp add: AnimateIris_init_def)

lemma init_refused_constraint:
  "ChebyshevCenter e r = Inr c \<Longrightarrow> length c = num_positions e \<Longrightarrow>
   \<not> constraint_fits (num_positions e) r \<Longrightarrow>
   AnimateIris_init e r = Inl (PydrakeError, [Published c, ButtonAdded])"
  by (simp add: AnimateIris_init_def ForcedPublish_def emit_def)

lemma init_Inr:
  assumes "AnimateIris_init e r = Inr s"
  shows "ChebyshevCenter e r = Inr (st_q s) \<and> length (st_q s) = num_positions e \<and>
     constraint_fits (num_positions e) r \<and>
     s = \<lparr>st_region = r, st_positions = st_q s, st_q = st_q s,
          st_prog = build_prog (num_positions e) r,
          st_rng_pos = 0, st_polls = 0, st_trace = [Published (st_q s), ButtonAdded]\<rparr>"
  using assms
  by (auto simp: AnimateIris_init_def ForcedPublish_def emit_def Let_def
      split: sum.splits if_splits)

subsection \<open>Leaving the loop\<close>

text \<open>
  Claim C6. When the button already counts a click at the first poll, the loop performs no
  pass: it returns at once, the only event is the poll itself, the generator has produced
  nothing, no program was solved and no pose was published. The whole function, when its
  initialisation succeeds, then shows the Chebyshev center once (line 78, before the loop)
  and nothing else.
\<close>

theorem stop_at_entry:
  "(1 \<le> GetButtonClicks e (st_polls s) \<longrightarrow>
      AnimateIris_loop e s =
        Some (Returned,
          s\<lparr>st_polls := Suc (st_polls s),
            st_trace := st_trace s @ [Polled (GetButtonClicks e (st_polls s))]\<rparr>)) \<and>
   (1 \<le> GetButtonClicks e 0 \<longrightarrow> ChebyshevCenter e r = Inr c \<longrightarrow>
    length c = num_positions e \<longrightarrow> constraint_fits (num_positions e) r \<longrightarrow>
      AnimateIris e r =
        Some (Returned, [Published c, ButtonAdded, Polled (GetButtonClicks e 0), ButtonDeleted]))"
  by (simp add: loop_stop polled_def AnimateIris_def init_eq emit_def)

theorem stop_at_entry_witness:
  "1 \<le> GetButtonClicks (square_env\<lparr>GetButtonClicks := \<lambda>k. 3\<rparr>) (st_polls square_start) \<and>
   ChebyshevCenter (square_env\<lparr>GetButtonClicks := \<lambda>k. 3\<rparr>) unit_square = Inr [0, 0] \<and>
   length [0, 0 :: real] = num_positions (square_env\<lparr>GetButtonClicks := \<lambda>k. 3\<rparr>) \<and>
   constraint_fits (num_positions (square_env\<lparr>GetButtonClicks := \<lambda>k. 3\<rparr>)) unit_square \<and>
   AnimateIris_loop (square_env\<lparr>GetButtonClicks := \<lambda>k. 3\<rparr>) square_start =
     Some (Returned,
       \<lparr>st_region = unit_square, st_positions = [0, 0], st_q = [0, 0],
        st_prog = build_prog 2 unit_square, st_rng_pos = 0, st_polls = 1,
        st_trace = [Published [0, 0], ButtonAdded, Polled 3]\<rparr>) \<and>
   AnimateIris (square_env\<lparr>GetButtonClicks := \<lambda>k. 3\<rparr>) unit_square =
     Some (Returned, [Published [0, 0], ButtonAdded, Polled 3, ButtonDeleted])"
proof -
  let ?e = "square_env\<lparr>GetButtonClicks := \<lambda>k. 3\<rparr>"
  have c: "ChebyshevCenter ?e unit_square = Inr [0, 0]"
    "length [0, 0 :: real] = num_positions ?e"
    "constraint_fits (num_positions ?e) unit_square"
    by (simp_all add: square_env_def constraint_fits_def unit_square_def)
  show ?thesis
    using stop_at_entry [of ?e square_start unit_square "[0, 0]"] c
    by (simp add: square_start_def)
qed

subsection \<open>Failure of the solver\<close>

lemma step_error_iff:
  "length (target_of e s) = length (st_q s) \<Longrightarrow>
   fst (AnimateIris_step e s) = Some x \<longleftrightarrow> x = AssertionError \<and> \<not> is_success (Solve e (prog_of e s))"
  by (cases "is_success (Solve e (prog_of e s))")
     (auto simp: step_assertion step_completed compatible_def)

text \<open>
  Claim C5. When the solver does not report success, the assertion of line 97 fails: the
  pass raises at once, after one sample and one solve and before any pose is published,
  and the loop hands the exception to the caller without a further poll, sample or solve.
  With \<open>q_next\<close> and \<open>q\<close> of the same dimension a pass raises nothing else.
\<close>

theorem solver_failure_raises:
  "(\<not> is_success (Solve e (prog_of e s)) \<longrightarrow>
      AnimateIris_step e s =
        (Some AssertionError,
         s\<lparr>st_prog := prog_of e s,
           st_rng_pos := st_rng_pos s + num_positions e,
           st_trace := st_trace s @ [Sampled (direction_of e s), Solved (prog_of e s)]\<rparr>)) \<and>
   (\<not> is_success (Solve e (prog_of e s)) \<longrightarrow> GetButtonClicks e (st_polls s) < 1 \<longrightarrow>
      AnimateIris_loop e s =
        Some (Raised AssertionError,
         s\<lparr>st_prog := prog_of e s,
           st_rng_pos := st_rng_pos s + num_positions e,
           st_polls := Suc (st_polls s),
           st_trace := st_trace s @
             [Polled (GetButtonClicks e (st_polls s)), Sampled (direction_of e s),
              Solved (prog_of e s)]\<rparr>)) \<and>
   (length (target_of e s) = length (st_q s) \<longrightarrow>
      (fst (AnimateIris_step e s) = Some x \<longleftrightarrow>
         x = AssertionError \<and> \<not> is_success (Solve e (prog_of e s))))"
proof (intro conjI impI)
  assume f: "\<not> is_success (Solve e (prog_of e s))"
  show "AnimateIris_step e s =
        (Some AssertionError,
         s\<lparr>st_prog := prog_of e s,
           st_rng_pos := st_rng_pos s + num_positions e,
           st_trace := st_trace s @ [Sampled (direction_of e s), Solved (prog_of e s)]\<rparr>)"
    using f by (simp add: step_assertion solving_def)
  assume c: "GetButtonClicks e (st_polls s) < 1"
  have f': "\<not> is_success (Solve e (prog_of e (polled e s)))"
    using f by (simp add: polled_step_vars)
  have "AnimateIris_loop e s = Some (Raised AssertionError, solving e (polled e s))"
    using c by (simp add: loop_raise step_assertion [OF f'])
  then show "AnimateIris_loop e s =
        Some (Raised AssertionError,
         s\<lparr>st_prog := prog_of e s,
           st_rng_pos := st_rng_pos s + num_positions e,
           st_polls := Suc (st_polls s),
           st_trace := st_trace s @
             [Polled (GetButtonClicks e (st_polls s)), Sampled (direction_of e s),
              Solved (prog_of e s)]\<rparr>)"
    by (simp add: solving_def polled_step_vars) (simp add: polled_def)
next
  assume "length (target_of e s) = length (st_q s)"
  then show "fst (AnimateIris_step e s) = Some x \<longleftrightarrow>
         x = AssertionError \<and> \<not> is_success (Solve e (prog_of e s))"
    by (rule step_error_iff)
qed

theorem solver_failure_raises_witness:
  "\<not> is_success (Solve failing_env (prog_of failing_env square_start)) \<and>
   GetButtonClicks failing_env (st_polls square_start) < 1 \<and>
   length (target_of failing_env square_start) = length (st_q square_start) \<and>
   AnimateIris_step failing_env square_start =
     (Some AssertionError,
      square_start\<lparr>st_prog := (build_prog 2 unit_square)\<lparr>cost := [1, 0]\<rparr>, st_rng_pos := 2,
        st_trace := [Published [0, 0], ButtonAdded, Sampled [1, 0],
          Solved ((build_prog 2 unit_square)\<lparr>cost := [1, 0]\<rparr>)]\<rparr>) \<and>
   AnimateIris_loop failing_env square_start =
     Some (Raised AssertionError,
      square_start\<lparr>st_prog := (build_prog 2 unit_square)\<lparr>cost := [1, 0]\<rparr>, st_rng_pos := 2,
        st_polls := 1,
        st_trace := [Published [0, 0], ButtonAdded, Polled 0, Sampled [1, 0],
          Solved ((build_prog 2 unit_square)\<lparr>cost := [1, 0]\<rparr>)]\<rparr>) \<and>
   fst (AnimateIris_step failing_env square_start) = Some AssertionError"
proof -
  have d: "direction_of failing_env square_start = [1, 0]"
    by (simp add: direction_of_def failing_env_def square_env_def square_start_def upt_conv_Cons)
  have p: "prog_of failing_env square_start = (build_prog 2 unit_square)\<lparr>cost := [1, 0]\<rparr>"
    by (simp add: prog_of_def d UpdateCoefficients_def) (simp add: square_start_def)
  have f: "\<not> is_success (Solve failing_env (prog_of failing_env square_start))"
    by (simp add: failing_env_def)
  have c: "GetButtonClicks failing_env (st_polls square_start) < 1"
    by (simp add: failing_env_def square_env_def)
  have l: "length (target_of failing_env square_start) = length (st_q square_start)"
    by (simp add: target_of_def failing_env_def square_start_def)
  have n: "num_positions failing_env = 2" "st_rng_pos square_start = 0" "st_polls square_start = 0"
    "GetButtonClicks failing_env 0 = 0"
    "st_trace square_start = [Published [0, 0], ButtonAdded]"
    by (simp_all add: failing_env_def square_env_def square_start_def)
  show ?thesis
    using solver_failure_raises [of failing_env square_start AssertionError] f c l
    by (simp add: d p n)
qed

subsection \<open>The runs of the examples\<close>

lemma square_step_result:
  "fst (AnimateIris_step square_env square_start) = None \<and>
   st_q (snd (AnimateIris_step square_env square_start)) = [-1, 0]"
  by code_simp

lemma square_run: "AnimateIris_loop square_env square_start = Some (Returned, square_end)"
  by code_simp

lemma notebook_run: "AnimateIris_loop notebook_env square_start = Some (Returned, notebook_end)"
  by code_simp

lemma notebook_end_shape:
  "st_polls notebook_end = 3 \<and> steps_of (st_trace notebook_end) = 2 \<and>
   length (published (st_trace notebook_end)) = 43 \<and> st_q notebook_end = [-1, 0]"
  by code_simp

lemma square_AnimateIris: "AnimateIris square_env unit_square = Some (Returned, square_trace)"
  by code_simp

lemma impatient_AnimateIris:
  "AnimateIris impatient_env unit_square = Some (Returned, impatient_trace)"
  by code_simp

lemma traces_shape:
  "steps_of square_trace = 1 \<and> steps_of impatient_trace = 1 \<and>
   length square_trace = 27 \<and> length impatient_trace = 49 \<and>
   published square_trace =
     [[0, 0],
      [0, 0], [-0.05, 0], [-0.1, 0], [-0.15, 0], [-0.2, 0], [-0.25, 0], [-0.3, 0],
      [-0.35, 0], [-0.4, 0], [-0.45, 0], [-0.5, 0], [-0.55, 0], [-0.6, 0], [-0.65, 0],
      [-0.7, 0], [-0.75, 0], [-0.8, 0], [-0.85, 0], [-0.9, 0], [-0.95, 0], [-1, 0]]"
  by code_simp

subsection \<open>Initialisation\<close>

text \<open>
  Claim C4, amended. The initialisation sets \<open>q\<close> to the center that
  \<^verbatim>\<open>region.ChebyshevCenter()\<close> returns and publishes it. It has no validation of its own:
  it checks neither the number of inequalities nor that the center satisfies them. It
  fails exactly when a call into the library does: when \<^verbatim>\<open>region.ChebyshevCenter()\<close>
  raises, when the plant refuses a center that does not have \<open>nq\<close> entries (line 77), and
  when the program refuses a constraint that does not fit its \<open>nq\<close> variables (line 88,
  after the center was published and the button added).
\<close>

theorem init_sets_center:
  "(ChebyshevCenter e r = Inr c \<longrightarrow> length c = num_positions e \<longrightarrow>
    constraint_fits (num_positions e) r \<longrightarrow>
      AnimateIris_init e r =
        Inr \<lparr>st_region = r, st_positions = c, st_q = c,
             st_prog = build_prog (num_positions e) r,
             st_rng_pos = 0, st_polls = 0, st_trace = [Published c, ButtonAdded]\<rparr>) \<and>
   (ChebyshevCenter e r = Inl x \<longrightarrow> AnimateIris_init e r = Inl (x, [])) \<and>
   (ChebyshevCenter e r = Inr c \<longrightarrow> length c \<noteq> num_positions e \<longrightarrow>
      AnimateIris_init e r = Inl (PydrakeError, [])) \<and>
   (ChebyshevCenter e r = Inr c \<longrightarrow> length c = num_positions e \<longrightarrow>
    \<not> constraint_fits (num_positions e) r \<longrightarrow>
      AnimateIris_init e r = Inl (PydrakeError, [Published c, ButtonAdded])) \<and>
   (AnimateIris_init e r = Inr s \<longrightarrow>
      ChebyshevCenter e r = Inr (st_q s) \<and> st_positions s = st_q s \<and>
      published (st_trace s) = [st_q s])"
proof (intro conjI impI)
  assume s: "AnimateIris_init e r = Inr s"
  note i = init_Inr [OF s]
  show "ChebyshevCenter e r = Inr (st_q s)"
    using i by simp
  have "s = \<lparr>st_region = r, st_positions = st_q s, st_q = st_q s,
          st_prog = build_prog (num_positions e) r,
          st_rng_pos = 0, st_polls = 0, st_trace = [Published (st_q s), ButtonAdded]\<rparr>"
    using i by simp
  then have "st_positions s = st_q s \<and> st_trace s = [Published (st_q s), ButtonAdded]"
    by (metis state.select_convs(2) state.select_convs(7))
  then show "st_positions s = st_q s" and "published (st_trace s) = [st_q s]"
    by simp_all
qed (simp_all add: init_eq init_raise init_refused_center init_refused_constraint)

text \<open>
  The initialisation accepts a region without inequalities. It refuses the unit square,
  whose center \<open>(0, 0)\<close> satisfies every inequality, when the plant has three positions.
\<close>

theorem init_validates_counterexample:
  "AnimateIris_init square_env no_inequalities =
     Inr \<lparr>st_region = no_inequalities, st_positions = [0, 0], st_q = [0, 0],
          st_prog = build_prog 2 no_inequalities,
          st_rng_pos = 0, st_polls = 0, st_trace = [Published [0, 0], ButtonAdded]\<rparr> \<and>
   region_A unit_square \<noteq> [] \<and> satisfies 0 unit_square [0, 0] \<and>
   ChebyshevCenter three_env unit_square = Inr [0, 0] \<and>
   AnimateIris_init three_env unit_square = Inl (PydrakeError, [])"
proof -
  have "AnimateIris_init square_env no_inequalities =
     Inr \<lparr>st_region = no_inequalities, st_positions = [0, 0], st_q = [0, 0],
          st_prog = build_prog 2 no_inequalities,
          st_rng_pos = 0, st_polls = 0, st_trace = [Published [0, 0], ButtonAdded]\<rparr>"
    using init_eq [of square_env no_inequalities "[0, 0]"]
    by (simp add: square_env_def constraint_fits_def no_inequalities_def)
  moreover have "region_A unit_square \<noteq> []" and "satisfies 0 unit_square [0, 0]"
    by (simp_all add: unit_square_def satisfies_def dot_def)
  moreover have "ChebyshevCenter three_env unit_square = Inr [0, 0]"
    by (simp add: three_env_def square_env_def)
  moreover have "AnimateIris_init three_env unit_square = Inl (PydrakeError, [])"
    using init_refused_center [of three_env unit_square "[0, 0]"]
    by (simp add: three_env_def square_env_def)
  ultimately show ?thesis
    by (intro conjI)
qed

theorem init_sets_center_witness:
  "ChebyshevCenter square_env unit_square = Inr [0, 0] \<and>
   length [0, 0 :: real] = num_positions square_env \<and>
   constraint_fits (num_positions square_env) unit_square \<and>
   AnimateIris_init square_env unit_square = Inr square_start \<and>
   ChebyshevCenter square_env unit_square = Inr (st_q square_start) \<and>
   published (st_trace square_start) = [st_q square_start] \<and>
   ChebyshevCenter (square_env\<lparr>ChebyshevCenter := \<lambda>r. Inl PydrakeError\<rparr>) unit_square =
     Inl PydrakeError \<and>
   AnimateIris_init (square_env\<lparr>ChebyshevCenter := \<lambda>r. Inl PydrakeError\<rparr>) unit_square =
     Inl (PydrakeError, []) \<and>
   ChebyshevCenter three_env unit_square = Inr [0, 0] \<and>
   length [0, 0 :: real] \<noteq> num_positions three_env \<and>
   AnimateIris_init three_env unit_square = Inl (PydrakeError, []) \<and>
   ChebyshevCenter square_env wide_region = Inr [0, 0] \<and>
   \<not> constraint_fits (num_positions square_env) wide_region \<and>
   AnimateIris_init square_env wide_region =
     Inl (PydrakeError, [Published [0, 0], ButtonAdded])"
proof -
  let ?f = "square_env\<lparr>ChebyshevCenter := \<lambda>r. Inl PydrakeError\<rparr>"
  have c: "ChebyshevCenter square_env unit_square = Inr [0, 0]"
    and l: "length [0, 0 :: real] = num_positions square_env"
    and f: "constraint_fits (num_positions square_env) unit_square"
    by (simp_all add: square_env_def constraint_fits_def unit_square_def)
  have i: "AnimateIris_init square_env unit_square = Inr square_start"
    using init_sets_center [of square_env unit_square "[0, 0]" PydrakeError square_start] c l f
    by (simp add: square_start_def square_env_def)
  have q: "ChebyshevCenter square_env unit_square = Inr (st_q square_start)"
    and p: "published (st_trace square_start) = [st_q square_start]"
    using init_sets_center [of square_env unit_square "[0, 0]" PydrakeError square_start] i
    by simp_all
  have cf: "ChebyshevCenter ?f unit_square = Inl PydrakeError"
    by simp
  have r: "AnimateIris_init ?f unit_square = Inl (PydrakeError, [])"
    using init_sets_center [of ?f unit_square "[]" PydrakeError square_start]
    by simp
  have c3: "ChebyshevCenter three_env unit_square = Inr [0, 0]"
    and l3: "length [0, 0 :: real] \<noteq> num_positions three_env"
    by (simp_all add: three_env_def square_env_def)
  have r3: "AnimateIris_init three_env unit_square = Inl (PydrakeError, [])"
    using init_sets_center [of three_env unit_square "[0, 0]" PydrakeError square_start] c3 l3
    by simp
  have cw: "ChebyshevCenter square_env wide_region = Inr [0, 0]"
    and fw: "\<not> constraint_fits (num_positions square_env) wide_region"
    by (simp_all add: square_env_def constraint_fits_def wide_region_def)
  have rw: "AnimateIris_init square_env wide_region =
     Inl (PydrakeError, [Published [0, 0], ButtonAdded])"
    using init_sets_center [of square_env wide_region "[0, 0]" PydrakeError square_start]
      cw l fw
    by simp
  from c l f i q p cf r c3 l3 r3 cw fw rw show ?thesis
    by (intro conjI)
qed

subsection \<open>What a step changes\<close>

lemma step_region: "st_region (snd (AnimateIris_step e s)) = st_region s"
proof (cases "is_success (Solve e (prog_of e s))")
  case True
  then show ?thesis
    by (cases "compatible (target_of e s) (st_q s)")
       (simp_all add: step_completed step_incompatible solving_def)
next
  case False
  then show ?thesis by (simp add: step_assertion solving_def)
qed

lemma loop_region:
  "AnimateIris_loop e s = Some y \<Longrightarrow> st_region (snd y) = st_region s"
proof (induct rule: AnimateIris_loop.raw_induct [rotated 1, consumes 1])
  case (1 loop e s y)
  then show ?case
    by (auto simp: poll_eq step_region polled_fields split: if_splits option.splits)
qed

lemma step_q:
  "fst (AnimateIris_step e s) = None \<Longrightarrow> st_q (snd (AnimateIris_step e s)) = target_of e s"
  by (cases "is_success (Solve e (prog_of e s))"; cases "compatible (target_of e s) (st_q s)")
     (simp_all add: step_completed step_incompatible step_assertion)

lemma step_constraints:
  "num_vars (st_prog (snd (AnimateIris_step e s))) = num_vars (st_prog s) \<and>
   constraint_A (st_prog (snd (AnimateIris_step e s))) = constraint_A (st_prog s) \<and>
   constraint_lb (st_prog (snd (AnimateIris_step e s))) = constraint_lb (st_prog s) \<and>
   constraint_ub (st_prog (snd (AnimateIris_step e s))) = constraint_ub (st_prog s)"
  by (cases "is_success (Solve e (prog_of e s))"; cases "compatible (target_of e s) (st_q s)")
     (simp_all add: step_completed step_incompatible step_assertion solving_def prog_of_def
       UpdateCoefficients_def)

lemma step_frame:
  assumes "fst (AnimateIris_step e s) = None"
  shows "snd (AnimateIris_step e s) =
     s\<lparr>st_positions := blend 1 (target_of e s) (st_q s),
       st_q := target_of e s,
       st_prog := UpdateCoefficients (st_prog s) (direction_of e s),
       st_rng_pos := st_rng_pos s + num_positions e,
       st_trace := st_trace s @ step_events e s\<rparr>"
proof -
  have ok: "is_success (Solve e (prog_of e s))"
    using assms by (cases "is_success (Solve e (prog_of e s))") (simp_all add: step_assertion)
  have c: "compatible (target_of e s) (st_q s)"
    using assms ok
    by (cases "compatible (target_of e s) (st_q s)") (simp_all add: step_incompatible)
  show ?thesis
    using step_completed [OF ok c] ok c by (simp add: step_events_def prog_of_def)
qed

text \<open>
  Claim C9. The region is the same after the initialisation, after every pass and after
  the whole loop, and so are the constraints of the program, which were copied from it. A
  pass that completes leaves \<open>q_next\<close> in \<open>q\<close>; besides \<open>q\<close> it has changed the pose of the
  plant, the coefficients of the cost, the state of the generator and the trace, and
  nothing else.
\<close>

theorem region_never_mutated:
  "(AnimateIris_init e r = Inr s0 \<longrightarrow> st_region s0 = r) \<and>
   st_region (snd (AnimateIris_step e s)) = st_region s \<and>
   (AnimateIris_loop e s = Some (out, s') \<longrightarrow> st_region s' = st_region s) \<and>
   (fst (AnimateIris_step e s) = None \<longrightarrow>
      st_q (snd (AnimateIris_step e s)) = target_of e s) \<and>
   constraint_A (st_prog (snd (AnimateIris_step e s))) = constraint_A (st_prog s) \<and>
   constraint_ub (st_prog (snd (AnimateIris_step e s))) = constraint_ub (st_prog s) \<and>
   (fst (AnimateIris_step e s) = None \<longrightarrow>
      snd (AnimateIris_step e s) =
        s\<lparr>st_positions := blend 1 (target_of e s) (st_q s),
          st_q := target_of e s,
          st_prog := UpdateCoefficients (st_prog s) (direction_of e s),
          st_rng_pos := st_rng_pos s + num_positions e,
          st_trace := st_trace s @ step_events e s\<rparr>)"
  using loop_region [of e s "(out, s')"] step_constraints [of e s] step_frame [of e s]
  by (auto simp: step_region step_q AnimateIris_init_def ForcedPublish_def emit_def Let_def
      split: sum.splits if_splits)

theorem region_never_mutated_witness:
  "AnimateIris_init square_env unit_square = Inr square_start \<and>
   st_region square_start = unit_square \<and>
   AnimateIris_loop square_env square_start = Some (Returned, square_end) \<and>
   st_region square_end = unit_square \<and>
   fst (AnimateIris_step square_env square_start) = None \<and>
   st_q (snd (AnimateIris_step square_env square_start)) = [-1, 0]"
proof -
  have r: "st_region square_start = unit_square"
    by (simp add: square_start_def)
  show ?thesis
    using region_never_mutated [of square_env unit_square square_start square_start
        Returned square_end]
      square_start_init square_run square_step_result r square_target
    by simp
qed

subsection \<open>Cancellation\<close>

lemma frames_no_poll: "list_all (\<lambda>ev. \<not> is_poll ev) (concat (map (\<lambda>t. frame e (f t)) ts))"
  by (induction ts) (auto simp: frame_def)

lemma step_trace: "st_trace (snd (AnimateIris_step e s)) = st_trace s @ step_events e s"
  by (cases "is_success (Solve e (prog_of e s))"; cases "compatible (target_of e s) (st_q s)")
     (simp_all add: step_completed step_incompatible step_assertion solving_def step_events_def)

lemma step_events_no_poll: "list_all (\<lambda>ev. \<not> is_poll ev) (step_events e s)"
  by (simp add: step_events_def frames_no_poll)

lemma step_events_published:
  "length (published (step_events e s)) = (if fst (AnimateIris_step e s) = None then 21 else 0)"
  by (cases "is_success (Solve e (prog_of e s))"; cases "compatible (target_of e s) (st_q s)")
     (simp_all add: step_completed step_incompatible step_assertion step_events_def
       published_frames, simp_all add: interpolation_def)

lemma whole_steps_append:
  "list_all (\<lambda>ev. \<not> is_poll ev) xs \<Longrightarrow>
   whole_steps n (xs @ ys) = whole_steps (n + length (published xs)) ys"
  by (induction n xs rule: whole_steps.induct) simp_all

lemma step_polls: "st_polls (snd (AnimateIris_step e s)) = st_polls s"
  by (cases "is_success (Solve e (prog_of e s))"; cases "compatible (target_of e s) (st_q s)")
     (simp_all add: step_completed step_incompatible step_assertion solving_def)

lemma polled_trace:
  "st_trace (polled e s) = st_trace s @ [Polled (GetButtonClicks e (st_polls s))]"
  by (simp add: polled_def)

lemma loop_whole_steps:
  assumes "AnimateIris_loop e s = Some y"
  shows "\<exists>c evs. st_trace (snd y) = st_trace s @ Polled c # evs \<and> whole_steps 0 evs"
  using assms
proof (induct rule: AnimateIris_loop.raw_induct [rotated 1, consumes 1])
  case (1 loop e s y)
  let ?p = "polled e s"
  let ?c = "GetButtonClicks e (st_polls s)"
  let ?s' = "snd (AnimateIris_step e ?p)"
  have tr: "st_trace ?s' = st_trace s @ Polled ?c # step_events e ?p"
    by (simp add: step_trace polled_trace)
  have ws: "whole_steps 0 (step_events e ?p @ ys) =
      whole_steps (if fst (AnimateIris_step e ?p) = None then 21 else 0) ys" for ys
    by (simp add: whole_steps_append [OF step_events_no_poll] step_events_published)
  show ?case
  proof (cases "?c < 1")
    case False
    then have "y = (Returned, ?p)"
      using 1(2) by (simp add: poll_eq)
    then show ?thesis by (simp add: polled_trace)
  next
    case True
    show ?thesis
    proof (cases "fst (AnimateIris_step e ?p)")
      case (Some x)
      then have "y = (Raised x, ?s')"
        using 1(2) True by (simp add: poll_eq)
      moreover have "whole_steps 0 (step_events e ?p)"
        using ws [of "[]"] Some by simp
      ultimately show ?thesis
        using tr by simp
    next
      case None
      show ?thesis
      proof (cases "running_as_notebook e")
        case False
        then have "y = (Returned, ?s')"
          using 1(2) True None by (simp add: poll_eq)
        moreover have "whole_steps 0 (step_events e ?p)"
          using ws [of "[]"] None by simp
        ultimately show ?thesis
          using tr by simp
      next
        case nb: True
        then have "loop e ?s' = Some y"
          using 1(2) True None by (simp add: poll_eq)
        then obtain c evs where y: "st_trace (snd y) = st_trace ?s' @ Polled c # evs"
          and w: "whole_steps 0 evs"
          using 1(1) by blast
        have "st_trace (snd y) = st_trace s @ Polled ?c # (step_events e ?p @ Polled c # evs)"
          using y tr by simp
        moreover have "whole_steps 0 (step_events e ?p @ Polled c # evs)"
          using ws [of "Polled c # evs"] None w by simp
        ultimately show ?thesis by blast
      qed
    qed
  qed
qed

text \<open>
  Claim C7. The button is polled between passes only. A pass does not poll: its events
  contain no poll, and it publishes all 21 waypoints and updates \<open>q\<close>, or raises before the
  first waypoint. In every run of the loop that ends, each poll but the last is followed by
  exactly 21 published waypoints before the next poll.
\<close>

theorem polls_between_steps:
  "(AnimateIris_loop e s = Some (out, s') \<longrightarrow>
      (\<exists>c evs. st_trace s' = st_trace s @ Polled c # evs \<and> whole_steps 0 evs)) \<and>
   (\<exists>evs. st_trace (snd (AnimateIris_step e s)) = st_trace s @ evs \<and>
      list_all (\<lambda>ev. \<not> is_poll ev) evs \<and>
      length (published evs) = (if fst (AnimateIris_step e s) = None then 21 else 0)) \<and>
   st_polls (snd (AnimateIris_step e s)) = st_polls s \<and>
   (fst (AnimateIris_step e s) = None \<longrightarrow>
      st_q (snd (AnimateIris_step e s)) = target_of e s)"
proof (intro conjI impI)
  assume "AnimateIris_loop e s = Some (out, s')"
  from loop_whole_steps [OF this]
  show "\<exists>c evs. st_trace s' = st_trace s @ Polled c # evs \<and> whole_steps 0 evs"
    by simp
next
  show "\<exists>evs. st_trace (snd (AnimateIris_step e s)) = st_trace s @ evs \<and>
      list_all (\<lambda>ev. \<not> is_poll ev) evs \<and>
      length (published evs) = (if fst (AnimateIris_step e s) = None then 21 else 0)"
    using step_trace step_events_no_poll step_events_published by blast
next
  show "st_polls (snd (AnimateIris_step e s)) = st_polls s"
    by (rule step_polls)
next
  assume "fst (AnimateIris_step e s) = None"
  then show "st_q (snd (AnimateIris_step e s)) = target_of e s"
    by (rule step_q)
qed

theorem polls_between_steps_witness:
  "AnimateIris_loop notebook_env square_start = Some (Returned, notebook_end) \<and>
   (\<exists>c evs. st_trace notebook_end = st_trace square_start @ Polled c # evs \<and>
      whole_steps 0 evs) \<and>
   st_polls notebook_end = 3 \<and> steps_of (st_trace notebook_end) = 2 \<and>
   length (published (st_trace notebook_end)) = 43 \<and>
   fst (AnimateIris_step notebook_env square_start) = None \<and>
   st_polls (snd (AnimateIris_step notebook_env square_start)) = st_polls square_start \<and>
   st_q (snd (AnimateIris_step notebook_env square_start)) = [-1, 0]"
proof -
  have n: "fst (AnimateIris_step notebook_env square_start) = None"
    by code_simp
  have t: "target_of notebook_env square_start = [-1, 0]"
    by code_simp
  show ?thesis
    using polls_between_steps [of notebook_env square_start Returned notebook_end]
      notebook_run notebook_end_shape n t
    by simp
qed

subsection \<open>Determinism\<close>

lemma steps_of_append: "steps_of (xs @ ys) = steps_of xs + steps_of ys"
  by (induction xs rule: steps_of.induct) simp_all

lemma steps_of_frames: "steps_of (concat (map (\<lambda>t. frame e (f t)) ts)) = 0"
  by (induction ts) (auto simp: frame_def)

lemma steps_of_step_events: "steps_of (step_events e s) = 1"
  by (simp add: step_events_def steps_of_frames)

lemma published_step_events:
  "published (step_events e s) =
     (if is_success (Solve e (prog_of e s)) \<and> compatible (target_of e s) (st_q s)
      then map (\<lambda>t. blend t (target_of e s) (st_q s)) interpolation else [])"
  by (simp add: step_events_def published_frames)

lemma walk_polled: "walk (polled e s) = walk s"
  by (simp add: walk_def polled_def published_append steps_of_append)

lemma same_step_vars:
  assumes "same_sources e1 e2" "walk s1 = walk s2"
  shows "direction_of e1 s1 = direction_of e2 s2" "prog_of e1 s1 = prog_of e2 s2"
    "target_of e1 s1 = target_of e2 s2" "st_q s1 = st_q s2"
    "Solve e1 = Solve e2"
  using assms by (simp_all add: same_sources_def walk_def direction_of_def prog_of_def target_of_def)

lemma step_fst_cases:
  "fst (AnimateIris_step e s) =
     (if \<not> is_success (Solve e (prog_of e s)) then Some AssertionError
      else if \<not> compatible (target_of e s) (st_q s) then Some ValueError else None)"
  by (simp add: step_assertion step_incompatible step_completed)

lemma step_walk:
  "walk (snd (AnimateIris_step e s)) =
     (st_region s,
      (if fst (AnimateIris_step e s) = None then target_of e s else st_q s),
      prog_of e s, st_rng_pos s + num_positions e,
      published (st_trace s) @ published (step_events e s), Suc (steps_of (st_trace s)))"
  by (cases "is_success (Solve e (prog_of e s))"; cases "compatible (target_of e s) (st_q s)")
     (simp_all add: walk_def step_trace published_append steps_of_append steps_of_step_events,
      simp_all add: step_completed step_incompatible step_assertion solving_def)

lemma same_step:
  assumes "same_sources e1 e2" "walk s1 = walk s2"
  shows "fst (AnimateIris_step e1 s1) = fst (AnimateIris_step e2 s2)"
    and "walk (snd (AnimateIris_step e1 s1)) = walk (snd (AnimateIris_step e2 s2))"
proof -
  note v = same_step_vars [OF assms]
  show f: "fst (AnimateIris_step e1 s1) = fst (AnimateIris_step e2 s2)"
    by (simp add: step_fst_cases v)
  have "num_positions e1 = num_positions e2" "st_region s1 = st_region s2"
    "st_rng_pos s1 = st_rng_pos s2" "published (st_trace s1) = published (st_trace s2)"
    "steps_of (st_trace s1) = steps_of (st_trace s2)"
    using assms by (simp_all add: same_sources_def walk_def)
  then show "walk (snd (AnimateIris_step e1 s1)) = walk (snd (AnimateIris_step e2 s2))"
    by (simp add: step_walk f published_step_events v)
qed

lemma loop_steps:
  assumes "AnimateIris_loop e s = Some y"
  shows "steps_of (st_trace s) \<le> steps_of (st_trace (snd y)) \<and>
     (steps_of (st_trace (snd y)) = steps_of (st_trace s) \<longrightarrow>
        published (st_trace (snd y)) = published (st_trace s))"
  using assms
proof (induct rule: AnimateIris_loop.raw_induct [rotated 1, consumes 1])
  case (1 loop e s y)
  let ?p = "polled e s"
  let ?s' = "snd (AnimateIris_step e ?p)"
  have st: "steps_of (st_trace ?s') = Suc (steps_of (st_trace s))"
    by (simp add: step_trace steps_of_append steps_of_step_events polled_trace)
  have p: "steps_of (st_trace ?p) = steps_of (st_trace s)"
    "published (st_trace ?p) = published (st_trace s)"
    by (simp_all add: polled_trace steps_of_append published_append)
  consider (stop) "y = (Returned, ?p)" | (ended) out where "y = (out, ?s')"
    | (continue) "loop e ?s' = Some y"
    using 1(2) by (auto simp: poll_eq split: if_splits option.splits)
  then show ?case
  proof cases
    case stop
    then show ?thesis by (simp add: p)
  next
    case ended
    then show ?thesis by (simp add: st)
  next
    case continue
    from 1(1) [OF this] show ?thesis by (simp add: st)
  qed
qed

lemma same_loop:
  assumes "AnimateIris_loop e1 s1 = Some y1"
  shows "steps_of (st_trace s1) \<le> steps_of (st_trace (snd y1)) \<and>
     (steps_of (st_trace (snd y1)) = steps_of (st_trace s1) \<longrightarrow>
        published (st_trace (snd y1)) = published (st_trace s1)) \<and>
     (\<forall>e2 s2 y2. same_sources e1 e2 \<longrightarrow> walk s1 = walk s2 \<longrightarrow>
        AnimateIris_loop e2 s2 = Some y2 \<longrightarrow>
        steps_of (st_trace (snd y1)) = steps_of (st_trace (snd y2)) \<longrightarrow>
        published (st_trace (snd y1)) = published (st_trace (snd y2)))"
  using assms
proof (induct rule: AnimateIris_loop.raw_induct [rotated 1, consumes 1])
  case (1 loop e1 s1 y1)
  let ?p1 = "polled e1 s1"
  let ?t1 = "snd (AnimateIris_step e1 ?p1)"
  have st1: "steps_of (st_trace ?t1) = Suc (steps_of (st_trace s1))"
    by (simp add: step_trace steps_of_append steps_of_step_events polled_trace)
  have p1: "steps_of (st_trace ?p1) = steps_of (st_trace s1)"
    "published (st_trace ?p1) = published (st_trace s1)"
    by (simp_all add: polled_trace steps_of_append published_append)
  consider (stop) "y1 = (Returned, ?p1)" | (ended) out where "y1 = (out, ?t1)"
    | (continue) "loop e1 ?t1 = Some y1"
    using 1(2) by (auto simp: poll_eq split: if_splits option.splits)
  then have low: "steps_of (st_trace s1) \<le> steps_of (st_trace (snd y1)) \<and>
     (steps_of (st_trace (snd y1)) = steps_of (st_trace s1) \<longrightarrow>
        published (st_trace (snd y1)) = published (st_trace s1))"
  proof cases
    case stop
    then show ?thesis by (simp add: p1)
  next
    case ended
    then show ?thesis by (simp add: st1)
  next
    case continue
    from 1(1) [OF this] show ?thesis by (simp add: st1)
  qed
  have two: "published (st_trace (snd y1)) = published (st_trace (snd y2))"
    if same: "same_sources e1 e2" and w: "walk s1 = walk s2"
      and l2: "AnimateIris_loop e2 s2 = Some y2"
      and eq: "steps_of (st_trace (snd y1)) = steps_of (st_trace (snd y2))"
    for e2 s2 y2
  proof -
    let ?p2 = "polled e2 s2"
    let ?t2 = "snd (AnimateIris_step e2 ?p2)"
    have wp: "walk ?p1 = walk ?p2"
      using w by (simp add: walk_polled)
    note ss = same_step [OF same wp]
    have s12: "steps_of (st_trace s1) = steps_of (st_trace s2)"
      "published (st_trace s1) = published (st_trace s2)"
      using w by (simp_all add: walk_def)
    have t12: "steps_of (st_trace ?t1) = steps_of (st_trace ?t2)"
      "published (st_trace ?t1) = published (st_trace ?t2)"
      using ss(2) by (simp_all add: walk_def)
    have p2: "steps_of (st_trace ?p2) = steps_of (st_trace s2)"
      "published (st_trace ?p2) = published (st_trace s2)"
      by (simp_all add: polled_trace steps_of_append published_append)
    consider (stop2) "y2 = (Returned, ?p2)" | (ended2) out where "y2 = (out, ?t2)"
      | (continue2) "AnimateIris_loop e2 ?t2 = Some y2"
      using l2 by (subst (asm) AnimateIris_loop.simps)
        (auto simp: poll_eq split: if_splits option.splits)
    then show ?thesis
    proof cases
      case stop2
      then have "steps_of (st_trace (snd y1)) = steps_of (st_trace s1)"
        using eq by (simp add: p2 s12)
      with low have "published (st_trace (snd y1)) = published (st_trace s1)"
        by simp
      then show ?thesis
        using stop2 by (simp add: p2 s12)
    next
      case ended2
      then have e1: "steps_of (st_trace (snd y1)) = steps_of (st_trace ?t1)"
        using eq by (simp add: t12)
      consider (stop) "y1 = (Returned, ?p1)" | (ended) out where "y1 = (out, ?t1)"
        | (continue) "loop e1 ?t1 = Some y1"
        using 1(2) by (auto simp: poll_eq split: if_splits option.splits)
      then show ?thesis
      proof cases
        case stop
        then show ?thesis using e1 by (simp add: p1 st1)
      next
        case ended
        then show ?thesis using ended2 by (simp add: t12)
      next
        case continue
        from 1(1) [OF this] e1 have "published (st_trace (snd y1)) = published (st_trace ?t1)"
          by simp
        then show ?thesis using ended2 by (simp add: t12)
      qed
    next
      case continue2
      note l = loop_steps [OF continue2]
      consider (stop) "y1 = (Returned, ?p1)" | (ended) out where "y1 = (out, ?t1)"
        | (continue) "loop e1 ?t1 = Some y1"
        using 1(2) by (auto simp: poll_eq split: if_splits option.splits)
      then show ?thesis
      proof cases
        case stop
        then have "steps_of (st_trace (snd y2)) = steps_of (st_trace s1)"
          using eq by (simp add: p1)
        then show ?thesis using l st1 t12 by simp
      next
        case ended
        then have "steps_of (st_trace (snd y2)) = steps_of (st_trace ?t2)"
          using eq by (simp add: t12)
        with l have "published (st_trace (snd y2)) = published (st_trace ?t2)"
          by simp
        then show ?thesis using ended by (simp add: t12)
      next
        case continue
        from 1(1) [OF this] same ss(2) continue2 eq show ?thesis
          by blast
      qed
    qed
  qed
  from low two show ?case by blast
qed

lemma steps_of_emit_deleted:
  "steps_of (st_trace (emit ButtonDeleted s)) = steps_of (st_trace s)"
  "published (st_trace (emit ButtonDeleted s)) = published (st_trace s)"
  by (simp_all add: emit_def steps_of_append published_append)

lemma same_init:
  assumes "same_sources e1 e2"
  shows "AnimateIris_init e2 r = AnimateIris_init e1 r"
proof -
  have c: "ChebyshevCenter e2 = ChebyshevCenter e1" and n: "num_positions e2 = num_positions e1"
    using assms by (simp_all add: same_sources_def)
  show ?thesis
    unfolding AnimateIris_init_def c n ..
qed

lemma AnimateIris_trace:
  assumes "AnimateIris e r = Some (out, t)" "AnimateIris_init e r = Inr s0"
  shows "\<exists>y. AnimateIris_loop e s0 = Some y \<and>
         steps_of t = steps_of (st_trace (snd y)) \<and> published t = published (st_trace (snd y))"
  using assms
  by (auto simp: AnimateIris_def steps_of_emit_deleted
      split: option.splits outcome.splits)

text \<open>
  Claim C8. Two runs of \<open>AnimateIris\<close> on the same region, with the same generator stream
  and the same solver, that perform the same number of steps publish the same sequence of
  poses. The clicks of the button and the notebook flag may differ between the runs. The
  source creates its generator without a seed, so the stream is a parameter here.
\<close>

theorem runs_agree:
  assumes "same_sources e1 e2"
    and "AnimateIris e1 r = Some (out1, t1)" and "AnimateIris e2 r = Some (out2, t2)"
    and "steps_of t1 = steps_of t2"
  shows "published t1 = published t2"
proof (cases "AnimateIris_init e1 r")
  case (Inl x)
  then have "AnimateIris_init e2 r = Inl x"
    using assms(1) by (simp add: same_init)
  with Inl assms(2,3) show ?thesis
    by (cases x) (simp add: AnimateIris_def)
next
  case (Inr s0)
  then have i2: "AnimateIris_init e2 r = Inr s0"
    using assms(1) by (simp add: same_init)
  obtain y1 where y1: "AnimateIris_loop e1 s0 = Some y1"
    "steps_of t1 = steps_of (st_trace (snd y1))" "published t1 = published (st_trace (snd y1))"
    using AnimateIris_trace [OF assms(2) Inr] by blast
  obtain y2 where y2: "AnimateIris_loop e2 s0 = Some y2"
    "steps_of t2 = steps_of (st_trace (snd y2))" "published t2 = published (st_trace (snd y2))"
    using AnimateIris_trace [OF assms(3) i2] by blast
  have "published (st_trace (snd y1)) = published (st_trace (snd y2))"
    using same_loop [OF y1(1)] assms(1,4) y2(1) y1(2) y2(2) by metis
  then show ?thesis
    by (simp add: y1(3) y2(3))
qed

theorem runs_agree_witness:
  "same_sources square_env impatient_env \<and>
   AnimateIris square_env unit_square = Some (Returned, square_trace) \<and>
   AnimateIris impatient_env unit_square = Some (Returned, impatient_trace) \<and>
   steps_of square_trace = steps_of impatient_trace \<and>
   length square_trace \<noteq> length impatient_trace \<and>
   published square_trace = published impatient_trace"
proof -
  have s: "same_sources square_env impatient_env"
    by (simp add: same_sources_def impatient_env_def)
  have e: "steps_of square_trace = steps_of impatient_trace"
    using traces_shape by simp
  show ?thesis
    using runs_agree [OF s square_AnimateIris impatient_AnimateIris e] s e traces_shape
      square_AnimateIris impatient_AnimateIris
    by simp
qed

subsection \<open>Outside a notebook\<close>

lemma frames_outside_notebook:
  "\<not> running_as_notebook e \<Longrightarrow>
   concat (map (\<lambda>t. frame e (f t)) ts) = map (\<lambda>t. Published (f t)) ts"
  by (induction ts) (simp_all add: frame_def)

lemma step_outside_notebook:
  assumes "\<not> running_as_notebook e" "is_success (Solve e (prog_of e s))"
    "length (target_of e s) = length (st_q s)"
  shows "AnimateIris_step e s =
     (None, s\<lparr>st_positions := target_of e s,
              st_q := target_of e s,
              st_prog := prog_of e s,
              st_rng_pos := st_rng_pos s + num_positions e,
              st_trace := st_trace s @ [Sampled (direction_of e s), Solved (prog_of e s)] @
                 map (\<lambda>t. Published (waypoint t (target_of e s) (st_q s))) interpolation\<rparr>)"
proof -
  have c: "compatible (target_of e s) (st_q s)"
    using assms(3) by (simp add: compatible_def)
  show ?thesis
    using assms
    by (simp add: step_completed [OF assms(2) c] frames_outside_notebook
        blend_same_length waypoint_1)
qed

lemma loop_ends_outside_notebook:
  assumes "\<not> running_as_notebook e"
  shows "\<exists>out s'. AnimateIris_loop e s = Some (out, s') \<and>
     steps_of (st_trace s') \<le> Suc (steps_of (st_trace s))"
proof (cases "GetButtonClicks e (st_polls s) < 1")
  case False
  then have "AnimateIris_loop e s = Some (Returned, polled e s)"
    by (simp add: loop_stop)
  then show ?thesis
    by (simp add: polled_trace steps_of_append)
next
  case True
  let ?s' = "snd (AnimateIris_step e (polled e s))"
  have st: "steps_of (st_trace ?s') = Suc (steps_of (st_trace s))"
    by (simp add: step_trace steps_of_append steps_of_step_events polled_trace)
  show ?thesis
  proof (cases "fst (AnimateIris_step e (polled e s))")
    case None
    with True assms have "AnimateIris_loop e s = Some (Returned, ?s')"
      by (simp add: loop_break)
    then show ?thesis by (simp add: st)
  next
    case (Some x)
    with True have "AnimateIris_loop e s = Some (Raised x, ?s')"
      by (simp add: loop_raise)
    then show ?thesis by (simp add: st)
  qed
qed

text \<open>
  Claim C10, amended. Outside a notebook the loop always ends, after at most one pass.
  When the button counts no click at the first poll, the solve succeeds and \<open>q_next\<close> has the
  dimension of \<open>q\<close>, it performs exactly one pass (one sample, one solve, the 21
  waypoints) and returns without polling the button again.
\<close>

theorem single_pass_outside_notebook:
  "(\<not> running_as_notebook e \<longrightarrow> GetButtonClicks e (st_polls s) < 1 \<longrightarrow>
    is_success (Solve e (prog_of e s)) \<longrightarrow> length (target_of e s) = length (st_q s) \<longrightarrow>
      AnimateIris_loop e s =
        Some (Returned,
          s\<lparr>st_positions := target_of e s,
            st_q := target_of e s,
            st_prog := prog_of e s,
            st_rng_pos := st_rng_pos s + num_positions e,
            st_polls := Suc (st_polls s),
            st_trace := st_trace s @
              [Polled (GetButtonClicks e (st_polls s)), Sampled (direction_of e s),
               Solved (prog_of e s)] @
              map (\<lambda>t. Published (waypoint t (target_of e s) (st_q s))) interpolation\<rparr>)) \<and>
   (\<not> running_as_notebook e \<longrightarrow>
      (\<exists>out s'. AnimateIris_loop e s = Some (out, s') \<and>
         steps_of (st_trace s') \<le> Suc (steps_of (st_trace s))))"
proof (intro conjI impI)
  assume a: "\<not> running_as_notebook e" "GetButtonClicks e (st_polls s) < 1"
    "is_success (Solve e (prog_of e s))" "length (target_of e s) = length (st_q s)"
  have st: "AnimateIris_step e (polled e s) =
     (None, (polled e s)\<lparr>st_positions := target_of e s,
              st_q := target_of e s,
              st_prog := prog_of e s,
              st_rng_pos := st_rng_pos s + num_positions e,
              st_trace := st_trace (polled e s) @ [Sampled (direction_of e s), Solved (prog_of e s)] @
                 map (\<lambda>t. Published (waypoint t (target_of e s) (st_q s))) interpolation\<rparr>)"
    using step_outside_notebook [of e "polled e s"] a
    by (simp add: polled_step_vars polled_fields)
  have "AnimateIris_loop e s = Some (Returned, snd (AnimateIris_step e (polled e s)))"
    using a(1,2) by (intro loop_break) (simp_all add: st)
  then show "AnimateIris_loop e s =
        Some (Returned,
          s\<lparr>st_positions := target_of e s,
            st_q := target_of e s,
            st_prog := prog_of e s,
            st_rng_pos := st_rng_pos s + num_positions e,
            st_polls := Suc (st_polls s),
            st_trace := st_trace s @
              [Polled (GetButtonClicks e (st_polls s)), Sampled (direction_of e s),
               Solved (prog_of e s)] @
              map (\<lambda>t. Published (waypoint t (target_of e s) (st_q s))) interpolation\<rparr>)"
    by (simp add: st) (simp add: polled_def)
next
  assume "\<not> running_as_notebook e"
  then show "\<exists>out s'. AnimateIris_loop e s = Some (out, s') \<and>
         steps_of (st_trace s') \<le> Suc (steps_of (st_trace s))"
    by (rule loop_ends_outside_notebook)
qed

text \<open>
  Outside a notebook, with a button that already counts a click, the loop performs no pass.
\<close>

theorem one_step_regardless_counterexample:
  "\<not> running_as_notebook (square_env\<lparr>GetButtonClicks := \<lambda>k. 1\<rparr>) \<and>
   AnimateIris_loop (square_env\<lparr>GetButtonClicks := \<lambda>k. 1\<rparr>) square_start =
     Some (Returned,
       \<lparr>st_region = unit_square, st_positions = [0, 0], st_q = [0, 0],
        st_prog = build_prog 2 unit_square, st_rng_pos = 0, st_polls = 1,
        st_trace = [Published [0, 0], ButtonAdded, Polled 1]\<rparr>)"
  by (simp add: loop_stop polled_def) (simp add: square_env_def square_start_def)

theorem single_pass_outside_notebook_witness:
  "\<not> running_as_notebook square_env \<and>
   GetButtonClicks square_env (st_polls square_start) < 1 \<and>
   is_success (Solve square_env (prog_of square_env square_start)) \<and>
   length (target_of square_env square_start) = length (st_q square_start) \<and>
   AnimateIris_loop square_env square_start =
     Some (Returned,
       \<lparr>st_region = unit_square, st_positions = [-1, 0], st_q = [-1, 0],
        st_prog = (build_prog 2 unit_square)\<lparr>cost := [1, 0]\<rparr>, st_rng_pos = 2, st_polls = 1,
        st_trace = [Published [0, 0], ButtonAdded, Polled 0, Sampled [1, 0],
          Solved ((build_prog 2 unit_square)\<lparr>cost := [1, 0]\<rparr>),
          Published [0, 0], Published [-0.05, 0], Published [-0.1, 0], Published [-0.15, 0],
          Published [-0.2, 0], Published [-0.25, 0], Published [-0.3, 0], Published [-0.35, 0],
          Published [-0.4, 0], Published [-0.45, 0], Published [-0.5, 0], Published [-0.55, 0],
          Published [-0.6, 0], Published [-0.65, 0], Published [-0.7, 0], Published [-0.75, 0],
          Published [-0.8, 0], Published [-0.85, 0], Published [-0.9, 0], Published [-0.95, 0],
          Published [-1, 0]]\<rparr>) \<and>
   (\<exists>out s'. AnimateIris_loop square_env square_start = Some (out, s') \<and>
      steps_of (st_trace s') \<le> Suc (steps_of (st_trace square_start)))"
proof -
  have a: "\<not> running_as_notebook square_env"
    "GetButtonClicks square_env (st_polls square_start) < 1"
    "is_success (Solve square_env (prog_of square_env square_start))"
    by (simp_all add: square_env_def)
  have l: "length (target_of square_env square_start) = length (st_q square_start)"
    by (simp add: square_target) (simp add: square_start_def)
  have p: "prog_of square_env square_start = (build_prog 2 unit_square)\<lparr>cost := [1, 0]\<rparr>"
    by (simp add: prog_of_def square_direction UpdateCoefficients_def) (simp add: square_start_def)
  have n: "num_positions square_env = 2" "GetButtonClicks square_env 0 = 0"
    by (simp_all add: square_env_def)
  have w: "map (\<lambda>t. Published (waypoint t [-1, 0] [0, 0])) interpolation =
     [Published [0, 0], Published [-0.05, 0], Published [-0.1, 0], Published [-0.15, 0],
          Published [-0.2, 0], Published [-0.25, 0], Published [-0.3, 0], Published [-0.35, 0],
          Published [-0.4, 0], Published [-0.45, 0], Published [-0.5, 0], Published [-0.55, 0],
          Published [-0.6, 0], Published [-0.65, 0], Published [-0.7, 0], Published [-0.75, 0],
          Published [-0.8, 0], Published [-0.85, 0], Published [-0.9, 0], Published [-0.95, 0],
          Published [-1, 0]]"
    by (simp add: interpolation_def waypoint_def)
  note th = single_pass_outside_notebook [of square_env square_start]
  have "AnimateIris_loop square_env square_start =
     Some (Returned,
       square_start\<lparr>st_positions := [-1, 0], st_q := [-1, 0],
        st_prog := (build_prog 2 unit_square)\<lparr>cost := [1, 0]\<rparr>,
        st_rng_pos := st_rng_pos square_start + 2, st_polls := Suc (st_polls square_start),
        st_trace := st_trace square_start @
          [Polled (GetButtonClicks square_env (st_polls square_start)), Sampled [1, 0],
           Solved ((build_prog 2 unit_square)\<lparr>cost := [1, 0]\<rparr>)] @
          map (\<lambda>t. Published (waypoint t [-1, 0] (st_q square_start))) interpolation\<rparr>)"
    using th a l by (simp only: square_target square_direction p n) simp
  then have run: "AnimateIris_loop square_env square_start =
     Some (Returned,
       \<lparr>st_region = unit_square, st_positions = [-1, 0], st_q = [-1, 0],
        st_prog = (build_prog 2 unit_square)\<lparr>cost := [1, 0]\<rparr>, st_rng_pos = 2, st_polls = 1,
        st_trace = [Published [0, 0], ButtonAdded, Polled 0, Sampled [1, 0],
          Solved ((build_prog 2 unit_square)\<lparr>cost := [1, 0]\<rparr>),
          Published [0, 0], Published [-0.05, 0], Published [-0.1, 0], Published [-0.15, 0],
          Published [-0.2, 0], Published [-0.25, 0], Published [-0.3, 0], Published [-0.35, 0],
          Published [-0.4, 0], Published [-0.45, 0], Published [-0.5, 0], Published [-0.55, 0],
          Published [-0.6, 0], Published [-0.65, 0], Published [-0.7, 0], Published [-0.75, 0],
          Published [-0.8, 0], Published [-0.85, 0], Published [-0.9, 0], Published [-0.95, 0],
          Published [-1, 0]]\<rparr>)"
    by (simp add: square_start_def w n)
  have bound: "\<exists>out s'. AnimateIris_loop square_env square_start = Some (out, s') \<and>
      steps_of (st_trace s') \<le> Suc (steps_of (st_trace square_start))"
    using th a(1) by blast
  from a l run bound show ?thesis
    by (intro conjI)
qed

subsection \<open>Feasibility\<close>

lemma region_rows:
  "list_all (\<lambda>(row, lo, up). lower_le lo (f row + tol) \<and> f row \<le> up + tol)
     (zip A (zip (map (\<lambda>_. NegInf) b) b)) =
   list_all (\<lambda>(row, bi). f row \<le> bi + tol) (zip A b)"
proof (induction A arbitrary: b)
  case Nil
  then show ?case by simp
next
  case (Cons row A)
  then show ?case by (cases b) simp_all
qed

lemma feasible_region:
  assumes "constraints_of_region e s"
  shows "lp_feasible_within tol (prog_of e s) v \<longleftrightarrow>
     length v = num_positions e \<and> satisfies tol (st_region s) v"
  using assms
  by (simp add: constraints_of_region_def lp_feasible_within_def prog_of_def
      UpdateCoefficients_def satisfies_def region_rows)

lemma init_constraints:
  "AnimateIris_init e r = Inr s \<Longrightarrow> constraints_of_region e s"
  by (auto simp: AnimateIris_init_def constraints_of_region_def ForcedPublish_def emit_def
      build_prog_def Let_def split: sum.splits if_splits)

lemma polled_constraints: "constraints_of_region e (polled e' s) = constraints_of_region e s"
  by (simp add: constraints_of_region_def polled_def)

lemma prog_of_cost: "cost (prog_of e s) = direction_of e s"
  by (simp add: prog_of_def UpdateCoefficients_def)

lemma step_prog: "st_prog (snd (AnimateIris_step e s)) = prog_of e s"
  by (cases "is_success (Solve e (prog_of e s))"; cases "compatible (target_of e s) (st_q s)")
     (simp_all add: step_completed step_incompatible step_assertion solving_def)

lemma step_keeps_constraints:
  "constraints_of_region e s \<Longrightarrow> constraints_of_region e (snd (AnimateIris_step e s))"
  by (simp add: constraints_of_region_def step_prog step_region prog_of_def
      UpdateCoefficients_def)

lemma dot_waypoint:
  "length u = length v \<Longrightarrow> dot row (waypoint t u v) = t * dot row u + (1 - t) * dot row v"
proof (induction row arbitrary: u v)
  case Nil
  then show ?case by (simp add: dot_def)
next
  case (Cons a row)
  show ?case
  proof (cases u)
    case Nil
    with Cons.prems show ?thesis by (simp add: dot_def waypoint_def)
  next
    case u: (Cons x u')
    then obtain y v' where v: "v = y # v'" and l: "length u' = length v'"
      using Cons.prems by (cases v) auto
    have "dot (a # row) (waypoint t u v) = a * (t * x + (1 - t) * y) + dot row (waypoint t u' v')"
      by (simp add: u v dot_def waypoint_def)
    also have "\<dots> = a * (t * x + (1 - t) * y) + (t * dot row u' + (1 - t) * dot row v')"
      by (simp add: Cons.IH [OF l])
    also have "\<dots> = t * dot (a # row) u + (1 - t) * dot (a # row) v"
      by (simp add: u v dot_def algebra_simps)
    finally show ?thesis .
  qed
qed

lemma convex_bound:
  fixes t :: real
  assumes "0 \<le> t" "t \<le> 1" "x \<le> c" "y \<le> c"
  shows "t * x + (1 - t) * y \<le> c"
proof -
  have "t * x \<le> t * c" "(1 - t) * y \<le> (1 - t) * c"
    using assms by (simp_all add: mult_left_mono)
  then have "t * x + (1 - t) * y \<le> t * c + (1 - t) * c"
    by (rule add_mono)
  also have "\<dots> = c"
    by (simp add: algebra_simps)
  finally show ?thesis .
qed

lemma satisfies_waypoint:
  assumes "0 \<le> t" "t \<le> 1" "length u = length v" "satisfies tol r u" "satisfies tol r v"
  shows "satisfies tol r (waypoint t u v)"
  using assms
  by (auto simp: satisfies_def list_all_iff dot_waypoint intro!: convex_bound)

lemma interpolation_unit: "t \<in> set interpolation \<Longrightarrow> 0 \<le> t \<and> t \<le> 1"
  by (auto simp: interpolation_def)

lemma waypoints_satisfy:
  assumes "length u = length v" "satisfies tol r u" "satisfies tol r v"
  shows "list_all (satisfies tol r) (map (\<lambda>t. waypoint t u v) interpolation)"
  using assms by (simp add: list_all_iff interpolation_unit satisfies_waypoint)

lemma step_feasible:
  assumes w: "feasible_walk tol e s"
    and solver: "is_success (Solve e (prog_of e s)) \<longrightarrow>
      lp_feasible_within tol (prog_of e s) (target_of e s)"
  shows "feasible_walk tol e (snd (AnimateIris_step e s))"
proof -
  from w have c: "constraints_of_region e s" and l: "length (st_q s) = num_positions e"
    and q: "satisfies tol (st_region s) (st_q s)"
    and old: "list_all (satisfies tol (st_region s)) (published (st_trace s))"
    by (simp_all add: feasible_walk_def)
  note c' = step_keeps_constraints [OF c]
  show ?thesis
  proof (cases "is_success (Solve e (prog_of e s))")
    case False
    then show ?thesis
      using c' l q old
      by (simp add: feasible_walk_def step_region)
         (simp add: step_assertion solving_def published_append)
  next
    case True
    with solver have "lp_feasible_within tol (prog_of e s) (target_of e s)"
      by simp
    then have lt: "length (target_of e s) = length (st_q s)"
      and t: "satisfies tol (st_region s) (target_of e s)"
      using l by (simp_all add: feasible_region [OF c])
    have "list_all (satisfies tol (st_region s))
       (published (st_trace (snd (AnimateIris_step e s))))"
      using old waypoints_satisfy [OF lt t q]
      by (simp add: step_published [OF True lt])
    moreover have "st_q (snd (AnimateIris_step e s)) = target_of e s"
      using True lt by (simp add: step_q step_fst)
    ultimately show ?thesis
      using c' l lt t by (simp add: feasible_walk_def step_region)
  qed
qed

text \<open>
  The invariant holds when the loop is entered with a feasible center, and a run of the loop that ends keeps it, with a solver whose successful
  answers satisfy the constraints within the tolerance.
\<close>

lemma polled_feasible: "feasible_walk tol e (polled e' s) = feasible_walk tol e s"
  by (simp add: feasible_walk_def constraints_of_region_def polled_def published_append)

lemma init_feasible:
  assumes "AnimateIris_init e r = Inr s" "satisfies tol r (st_q s)"
  shows "feasible_walk tol e s"
proof -
  note i = init_Inr [OF assms(1)]
  have "s = \<lparr>st_region = r, st_positions = st_q s, st_q = st_q s,
          st_prog = build_prog (num_positions e) r,
          st_rng_pos = 0, st_polls = 0, st_trace = [Published (st_q s), ButtonAdded]\<rparr>"
    using i by simp
  then have "st_region s = r \<and> st_trace s = [Published (st_q s), ButtonAdded]"
    by (metis state.select_convs(1) state.select_convs(7))
  then show ?thesis
    using assms(2) i init_constraints [OF assms(1)] by (simp add: feasible_walk_def)
qed

lemma loop_feasible:
  assumes "AnimateIris_loop e s = Some y"
  shows "(\<forall>p. is_success (Solve e p) \<longrightarrow> lp_feasible_within tol p (GetSolution (Solve e p))) \<longrightarrow>
    feasible_walk tol e s \<longrightarrow> feasible_walk tol e (snd y)"
  using assms
proof (induct rule: AnimateIris_loop.raw_induct [rotated 1, consumes 1])
  case (1 loop e s y)
  show ?case
  proof (intro impI)
    assume sol: "\<forall>p. is_success (Solve e p) \<longrightarrow> lp_feasible_within tol p (GetSolution (Solve e p))"
      and w: "feasible_walk tol e s"
    let ?p = "polled e s"
    let ?s' = "snd (AnimateIris_step e ?p)"
    have wp: "feasible_walk tol e ?p"
      using w by (simp add: polled_feasible)
    have ws: "feasible_walk tol e ?s'"
      using sol by (intro step_feasible [OF wp]) (simp add: target_of_def)
    consider (stop) "y = (Returned, ?p)" | (ended) out where "y = (out, ?s')"
      | (continue) "loop e ?s' = Some y"
      using 1(2) by (auto simp: poll_eq split: if_splits option.splits)
    then show "feasible_walk tol e (snd y)"
    proof cases
      case stop
      then show ?thesis using wp by simp
    next
      case ended
      then show ?thesis using ws by simp
    next
      case continue
      from 1(1) [OF this] sol ws show ?thesis by blast
    qed
  qed
qed

text \<open>
  Claim C3. Let \<open>q\<close> and every pose published so far satisfy every inequality of the
  region within the tolerance, and let a successful solve return a point that satisfies
  the constraints of its program within the tolerance. Then the same holds after the
  pass: the target satisfies every inequality, and so do the 21 waypoints, which are convex
  combinations of the target and \<open>q\<close>.
\<close>

theorem step_keeps_feasible:
  assumes "feasible_walk tol e s"
    and "is_success (Solve e (prog_of e s)) \<longrightarrow>
      lp_feasible_within tol (prog_of e s) (target_of e s)"
  shows "feasible_walk tol e (snd (AnimateIris_step e s)) \<and>
   (fst (AnimateIris_step e s) = None \<longrightarrow>
      satisfies tol (st_region s) (target_of e s) \<and>
      published (st_trace (snd (AnimateIris_step e s))) =
        published (st_trace s) @
        map (\<lambda>t. waypoint t (target_of e s) (st_q s)) interpolation \<and>
      list_all (satisfies tol (st_region s))
        (map (\<lambda>t. waypoint t (target_of e s) (st_q s)) interpolation))"
proof (intro conjI impI)
  show "feasible_walk tol e (snd (AnimateIris_step e s))"
    using assms by (rule step_feasible)
next
  assume n: "fst (AnimateIris_step e s) = None"
  then have ok: "is_success (Solve e (prog_of e s))"
    by (simp add: step_fst_cases split: if_splits)
  from assms(1) have c: "constraints_of_region e s" and l: "length (st_q s) = num_positions e"
    and q: "satisfies tol (st_region s) (st_q s)"
    by (simp_all add: feasible_walk_def)
  from ok assms(2) have "lp_feasible_within tol (prog_of e s) (target_of e s)"
    by simp
  then have lt: "length (target_of e s) = length (st_q s)"
    and t: "satisfies tol (st_region s) (target_of e s)"
    using l by (simp_all add: feasible_region [OF c])
  show "satisfies tol (st_region s) (target_of e s)"
    by (rule t)
  show "published (st_trace (snd (AnimateIris_step e s))) =
        published (st_trace s) @
        map (\<lambda>t. waypoint t (target_of e s) (st_q s)) interpolation"
    using ok lt by (rule step_published)
  show "list_all (satisfies tol (st_region s))
        (map (\<lambda>t. waypoint t (target_of e s) (st_q s)) interpolation)"
    using lt t q by (rule waypoints_satisfy)
qed

lemma square_start_feasible: "feasible_walk (1 / 10 ^ 6) square_env square_start"
  by (simp add: feasible_walk_def constraints_of_region_def)
     (simp add: square_env_def square_start_def build_prog_def unit_square_def satisfies_def
       dot_def)

theorem step_keeps_feasible_witness:
  "feasible_walk (1 / 10 ^ 6) square_env square_start \<and>
   lp_feasible_within (1 / 10 ^ 6) (prog_of square_env square_start)
     (target_of square_env square_start) \<and>
   feasible_walk (1 / 10 ^ 6) square_env (snd (AnimateIris_step square_env square_start)) \<and>
   fst (AnimateIris_step square_env square_start) = None \<and>
   satisfies (1 / 10 ^ 6) unit_square [-1, 0] \<and>
   list_all (satisfies (1 / 10 ^ 6) unit_square)
     (map (\<lambda>t. waypoint t [-1, 0] [0, 0]) interpolation)"
proof -
  have f: "lp_feasible_within (1 / 10 ^ 6) (prog_of square_env square_start)
     (target_of square_env square_start)"
    by (simp add: square_prog square_target lp_feasible_within_def dot_def)
  have n: "fst (AnimateIris_step square_env square_start) = None"
    by (simp add: step_fst_cases square_target compatible_def)
       (simp add: square_env_def square_start_def)
  have r: "st_region square_start = unit_square" "st_q square_start = [0, 0]"
    by (simp_all add: square_start_def)
  show ?thesis
    using step_keeps_feasible [OF square_start_feasible] f n square_start_feasible
    by (simp add: square_target r)
qed

subsection \<open>The target of a step\<close>

text \<open>
  Claim C1, amended. The program handed to the solver has the inequalities of the region
  as its constraints, without lower bounds, and the sampled direction as the coefficients
  of its cost. The solver minimises the cost: when its answer is a minimum of the program,
  the target is a point of the region at which \<open>direction \<cdot> q\<close> is least. For the unit
  square and the direction \<open>(1, 0)\<close> the first coordinate of the target is \<open>-1\<close>.
\<close>

theorem step_target_is_minimum:
  assumes "constraints_of_region e s"
    and "fst (AnimateIris_step e s) = None"
    and "lp_minimum (prog_of e s) (target_of e s)"
  shows "constraint_A (prog_of e s) = region_A (st_region s) \<and>
    constraint_ub (prog_of e s) = region_b (st_region s) \<and>
    constraint_lb (prog_of e s) = map (\<lambda>_. NegInf) (region_b (st_region s)) \<and>
    cost (prog_of e s) = direction_of e s \<and>
    st_q (snd (AnimateIris_step e s)) = target_of e s \<and>
    satisfies 0 (st_region s) (target_of e s) \<and>
    (\<forall>w. length w = num_positions e \<and> satisfies 0 (st_region s) w \<longrightarrow>
       dot (direction_of e s) (target_of e s) \<le> dot (direction_of e s) w) \<and>
    (st_region s = unit_square \<and> direction_of e s = [1, 0] \<longrightarrow> hd (target_of e s) = -1)"
proof -
  have feas: "lp_feasible (prog_of e s) w \<longleftrightarrow>
      length w = num_positions e \<and> satisfies 0 (st_region s) w" for w
    by (simp add: lp_feasible_def feasible_region [OF assms(1)])
  from assms(3) have t: "length (target_of e s) = num_positions e"
    "satisfies 0 (st_region s) (target_of e s)"
    and m: "\<And>w. length w = num_positions e \<Longrightarrow> satisfies 0 (st_region s) w \<Longrightarrow>
       dot (direction_of e s) (target_of e s) \<le> dot (direction_of e s) w"
    by (simp_all add: lp_minimum_def feas prog_of_cost)
  have sq: "hd (target_of e s) = -1" if r: "st_region s = unit_square"
    and d: "direction_of e s = [1, 0]"
  proof -
    have "length (direction_of e s) = num_positions e"
      by (simp add: direction_of_def)
    then have n: "num_positions e = 2"
      by (simp add: d)
    then obtain a b where ab: "target_of e s = [a, b]"
      using t(1) by (cases "target_of e s"; cases "tl (target_of e s)") auto
    have "- 1 \<le> a"
      using t(2) by (simp add: r ab satisfies_def unit_square_def dot_def)
    moreover have "satisfies 0 unit_square [-1, 0]"
      by (simp add: satisfies_def unit_square_def dot_def)
    then have "dot [1, 0] [a, b] \<le> dot [1, 0] [-1, 0]"
      using m [of "[-1, 0]"] by (simp add: n r d ab)
    then have "a \<le> - 1"
      by (simp add: dot_def)
    ultimately show ?thesis
      by (simp add: ab)
  qed
  have p: "constraint_A (prog_of e s) = region_A (st_region s)"
    "constraint_ub (prog_of e s) = region_b (st_region s)"
    "constraint_lb (prog_of e s) = map (\<lambda>_. NegInf) (region_b (st_region s))"
    using assms(1) by (simp_all add: constraints_of_region_def prog_of_def UpdateCoefficients_def)
  show ?thesis
    using p t(2) m sq by (simp add: prog_of_cost step_q [OF assms(2)])
qed

lemma square_minimum:
  "lp_minimum (prog_of square_env square_start) (target_of square_env square_start)"
proof -
  have "dot [1, 0] [-1, 0] \<le> dot [1, 0] w"
    if "lp_feasible (prog_of square_env square_start) w" for w
  proof -
    from that obtain a b where w: "w = [a, b]"
      by (cases w; cases "tl w") (auto simp: lp_feasible_def lp_feasible_within_def square_prog)
    from that have "- 1 \<le> a"
      by (simp add: w lp_feasible_def lp_feasible_within_def square_prog dot_def)
    then show ?thesis
      by (simp add: w dot_def)
  qed
  moreover have "lp_feasible (prog_of square_env square_start) [-1, 0]"
    by (simp add: lp_feasible_def lp_feasible_within_def square_prog dot_def)
  ultimately show ?thesis
    by (simp add: lp_minimum_def square_target) (simp add: square_prog)
qed

text \<open>
  On the unit square with the direction \<open>(1, 0)\<close> and a solver that returns the minimum
  \<open>(-1, 0)\<close> of its program, the target is \<open>(-1, 0)\<close>: it is at distance 2 from \<open>(1, 0)\<close>,
  and \<open>direction \<cdot> q\<close> is larger at the point \<open>(1, 0)\<close> of the region.
\<close>

theorem target_maximises_counterexample:
  "direction_of square_env square_start = [1, 0] \<and>
   st_region square_start = unit_square \<and> st_q square_start = [0, 0] \<and>
   lp_minimum (prog_of square_env square_start) (target_of square_env square_start) \<and>
   fst (AnimateIris_step square_env square_start) = None \<and>
   st_q (snd (AnimateIris_step square_env square_start)) = [-1, 0] \<and>
   satisfies 0 unit_square [1, 0] \<and>
   dot [1, 0] [-1, 0] < dot [1, 0] [1, 0] \<and>
   \<bar>hd [-1, 0] - hd [1, 0 :: real]\<bar> = 2"
  using square_direction square_minimum square_step_result
  by (simp add: satisfies_def unit_square_def dot_def) (simp add: square_start_def unit_square_def)

theorem step_target_is_minimum_witness:
  "constraints_of_region square_env square_start \<and>
   fst (AnimateIris_step square_env square_start) = None \<and>
   lp_minimum (prog_of square_env square_start) (target_of square_env square_start) \<and>
   st_region square_start = unit_square \<and> direction_of square_env square_start = [1, 0] \<and>
   st_q (snd (AnimateIris_step square_env square_start)) = [-1, 0] \<and>
   hd (target_of square_env square_start) = -1 \<and>
   dot [1, 0] (target_of square_env square_start) \<le> dot [1, 0] [1, 0]"
proof -
  have c: "constraints_of_region square_env square_start"
    using square_start_feasible by (simp add: feasible_walk_def)
  have n: "fst (AnimateIris_step square_env square_start) = None"
    using square_step_result by simp
  have r: "st_region square_start = unit_square"
    by (simp add: square_start_def)
  have s: "satisfies 0 unit_square [1, 0]"
    by (simp add: satisfies_def unit_square_def dot_def)
  have np: "num_positions square_env = 2"
    by (simp add: square_env_def)
  note th = step_target_is_minimum [OF c n square_minimum]
  from th have "\<forall>w. length w = num_positions square_env \<and> satisfies 0 (st_region square_start) w \<longrightarrow>
       dot (direction_of square_env square_start) (target_of square_env square_start)
         \<le> dot (direction_of square_env square_start) w"
    by (elim conjE)
  then have m: "dot [1, 0] (target_of square_env square_start) \<le> dot [1, 0] [1, 0]"
    using s by (simp add: r np square_direction)
  from th have "st_q (snd (AnimateIris_step square_env square_start)) = target_of square_env square_start"
    and "hd (target_of square_env square_start) = -1"
    using r square_direction by simp_all
  then show ?thesis
    using c n square_minimum r square_direction m by (simp add: square_target)
qed

end
